theory Spec2Isabelle
  imports Main "HOL-Library.AList" "HOL-Library.Multiset"
begin

section \<open>Strings, bytes and insertion-ordered tables\<close>

text \<open>
  JavaScript strings are modelled as \<^typ>\<open>string\<close>, read as the UTF-8 bytes of the text, so
  that \<open>new TextEncoder().encode\<close> is the identity on the representation. A \<open>Uint8Array\<close>
  is a list of bytes of the same type. Chapter and volume indices (\<open>idx: number\<close>) are
  modelled as \<^typ>\<open>int\<close>; the counters start at 0 and only grow, so they are \<^typ>\<open>nat\<close>.
\<close>

type_synonym bytes = "char list"

definition encode :: "string \<Rightarrow> bytes" where
  "encode s = s"

text \<open>
  A JavaScript \<open>Map\<close> keeps its keys in insertion order, and \<open>forEach\<close> visits them in
  that order; \<open>set\<close> on a key that is present replaces the value where it stands. This
  is an association list with \<^const>\<open>AList.update\<close>; \<open>mapSet\<close> is the method \<open>set\<close>.
\<close>

type_synonym ('k, 'v) jsmap = "('k \<times> 'v) list"

definition has :: "('k, 'v) jsmap \<Rightarrow> 'k \<Rightarrow> bool" where
  "has m k = (k \<in> set (map fst m))"

definition get :: "('k, 'v) jsmap \<Rightarrow> 'k \<Rightarrow> 'v option" where
  "get m k = map_of m k"

definition mapSet :: "('k, 'v) jsmap \<Rightarrow> 'k \<Rightarrow> 'v \<Rightarrow> ('k, 'v) jsmap" where
  "mapSet m k v = AList.update k v m"

definition keys :: "('k, 'v) jsmap \<Rightarrow> 'k list" where
  "keys m = map fst m"

subsection \<open>String operations of the JavaScript library\<close>

definition startsWith :: "string \<Rightarrow> string \<Rightarrow> bool" where
  "startsWith s p = (take (length p) s = p)"

definition endsWith :: "string \<Rightarrow> string \<Rightarrow> bool" where
  "endsWith s p = (length p \<le> length s \<and> drop (length s - length p) s = p)"

text \<open>\<open>s.split(sep)\<close> for a one-character separator or a character class: the pieces
  between the separators, never an empty list.\<close>

fun splitOn :: "(char \<Rightarrow> bool) \<Rightarrow> string \<Rightarrow> string list" where
  "splitOn P [] = [[]]"
| "splitOn P (c # cs) =
     (if P c then [] # splitOn P cs
      else (case splitOn P cs of p # ps \<Rightarrow> (c # p) # ps | [] \<Rightarrow> [[c]]))"

text \<open>\<open>pop()\<close> on the array a split returns, which is never empty.\<close>

definition pop :: "string list \<Rightarrow> string" where
  "pop ps = last ps"

fun join :: "string \<Rightarrow> string list \<Rightarrow> string" where
  "join sep [] = []"
| "join sep [x] = x"
| "join sep (x # y # ys) = x @ sep @ join sep (y # ys)"

text \<open>\<open>toLowerCase\<close> and the case-insensitive flag of a regular expression, on ASCII
  letters; other characters are left as they are.\<close>

definition lowerTable :: "(char \<times> char) list" where
  "lowerTable =
     [(CHR ''A'', CHR ''a''), (CHR ''B'', CHR ''b''), (CHR ''C'', CHR ''c''), (CHR ''D'', CHR ''d''),
      (CHR ''E'', CHR ''e''), (CHR ''F'', CHR ''f''), (CHR ''G'', CHR ''g''), (CHR ''H'', CHR ''h''),
      (CHR ''I'', CHR ''i''), (CHR ''J'', CHR ''j''), (CHR ''K'', CHR ''k''), (CHR ''L'', CHR ''l''),
      (CHR ''M'', CHR ''m''), (CHR ''N'', CHR ''n''), (CHR ''O'', CHR ''o''), (CHR ''P'', CHR ''p''),
      (CHR ''Q'', CHR ''q''), (CHR ''R'', CHR ''r''), (CHR ''S'', CHR ''s''), (CHR ''T'', CHR ''t''),
      (CHR ''U'', CHR ''u''), (CHR ''V'', CHR ''v''), (CHR ''W'', CHR ''w''), (CHR ''X'', CHR ''x''),
      (CHR ''Y'', CHR ''y''), (CHR ''Z'', CHR ''z'')]"

definition lowerChar :: "char \<Rightarrow> char" where
  "lowerChar c = (case map_of lowerTable c of Some l \<Rightarrow> l | None \<Rightarrow> c)"

definition toLowerCase :: "string \<Rightarrow> string" where
  "toLowerCase s = map lowerChar s"

text \<open>A number in a template literal: the decimal digits, with a minus sign below zero.\<close>

definition digit :: "nat \<Rightarrow> char" where
  "digit n = ''0123456789'' ! n"

fun string_of_nat :: "nat \<Rightarrow> string" where
  "string_of_nat n =
     (if n < 10 then [digit n] else string_of_nat (n div 10) @ [digit (n mod 10)])"

definition string_of_int :: "int \<Rightarrow> string" where
  "string_of_int i =
     (if i < 0 then CHR ''-'' # string_of_nat (nat (- i)) else string_of_nat (nat i))"

text \<open>\<open>a || b\<close> on strings: the empty string is falsy.\<close>

definition orElse :: "string \<Rightarrow> string \<Rightarrow> string" where
  "orElse a b = (if a \<noteq> [] then a else b)"

section \<open>The document state\<close>

record chap =
  c_idx :: int
  c_title :: string
  c_filename :: string

record volume =
  v_title :: string
  v_idx :: int
  chapters :: "chap list"
  containerFile :: string

record stylesheet =
  s_idx :: int
  s_filename :: string
  s_mapname :: string

record counters =
  image :: nat
  css :: nat
  other :: nat

text \<open>
  \<open>info\<close> is an object filled by \<open>setInfo(tag, value)\<close>, where a value is a string or
  a \<open>Uint8Array\<close>. The generators read four of its keys; \<open>cover\<close> only ever holds bytes.
\<close>

datatype infoValue = Str string | Bin bytes

record info =
  bookname :: "infoValue option"
  author :: "infoValue option"
  introduction :: "infoValue option"
  cover :: "bytes option"

record epub =
  resources :: "(string, bytes) jsmap"
  volumes :: "volume list"
  cssMap :: "(string, int) jsmap"
  info :: info
  uuid :: string
  resourceCounters :: counters
  resourceUrls :: "(string, string) jsmap"
  cssList :: "stylesheet list"

text \<open>The constructor; the random identifier \<open>createUuid()\<close> is its parameter.\<close>

definition newEpub :: "string \<Rightarrow> epub" where
  "newEpub u =
     \<lparr> resources = [], volumes = [], cssMap = [],
       info = \<lparr> bookname = None, author = None, introduction = None, cover = None \<rparr>,
       uuid = u,
       resourceCounters = \<lparr> image = 0, css = 0, other = 0 \<rparr>,
       resourceUrls = [], cssList = [] \<rparr>"

subsection \<open>\<open>_addResource\<close>\<close>

definition addResource :: "epub \<Rightarrow> string \<Rightarrow> bytes \<Rightarrow> epub" where
  "addResource st path content =
     (if \<not> has (resources st) path
      then st\<lparr>resources := mapSet (resources st) path content\<rparr>
      else st)"

text \<open>A sequence of registrations, in the order the calls are made.\<close>

fun registerAll :: "epub \<Rightarrow> (string \<times> bytes) list \<Rightarrow> epub" where
  "registerAll st [] = st"
| "registerAll st ((path, content) # regs) = registerAll (addResource st path content) regs"

section \<open>The collaborators\<close>

text \<open>
  The network, the HTML parser and serializer, the clock and the regular-expression scan
  of a stylesheet are outside the program; they are the fields of an environment.

  \<^item> \<open>fetch url\<close> is \<open>None\<close> when the promise rejects; otherwise the response, with
    \<open>response.ok\<close>, the \<open>Content-Type\<close> header (\<open>None\<close> when absent) and the body
    (\<open>None\<close> when reading it rejects). A URL always gets the same answer.
  \<^item> \<open>completion\<close> is the order in which the fetches started by one \<open>processImages\<close>
    call settle: it is given the pending fetches in document order.
  \<^item> \<open>secure\<close> is \<open>window.location.href.startsWith('https://')\<close>.
  \<^item> A parsed fragment is the sequence of its \<open>img\<close> elements, each with its attributes,
    and of the markup between them.
\<close>

record response =
  r_ok :: bool
  r_contentType :: "string option"
  r_body :: "bytes option"

datatype node = Markup string | Img "(string, string) jsmap"

record env =
  fetch :: "string \<Rightarrow> response option"
  completion :: "(nat \<times> string) list \<Rightarrow> (nat \<times> string) list"
  secure :: bool
  parseHtml :: "string \<Rightarrow> node list"
  serializeHtml :: "node list \<Rightarrow> string"
  now :: string
  cssUrlMatches :: "string \<Rightarrow> string list"
  cssReplace :: "(string \<times> string) list \<Rightarrow> string \<Rightarrow> string"

section \<open>Class \<open>Volume\<close>\<close>

definition MIME_MAP :: "(string, string) jsmap" where
  \<open>MIME_MAP =
     [(''image/jpeg'', ''jpg''),
      (''image/png'', ''png''),
      (''image/gif'', ''gif''),
      (''image/webp'', ''webp''),
      (''image/svg+xml'', ''svg''),
      (''image/avif'', ''avif''),
      (''application/octet-stream'', ''bin'')]\<close>

text \<open>The placeholder document the constructor registers.\<close>

definition volumeContent :: "string \<Rightarrow> string" where
  \<open>volumeContent title =
     ''<?xml version="1.0" encoding="UTF-8"?>\<newline><!DOCTYPE html>\<newline><html xmlns="http://www.w3.org/1999/xhtml">\<newline><head>\<newline><title>''
     @ title @ ''</title>\<newline></head>\<newline><body>\<newline><h1>'' @ title
     @ ''</h1>\<newline></body>\<newline></html>''\<close>

definition newVolume :: "epub \<Rightarrow> string \<Rightarrow> int \<Rightarrow> volume \<times> epub" where
  "newVolume st title idx =
     (let containerFile = ''volume_'' @ string_of_int idx @ ''.xhtml''
      in (\<lparr> v_title = title, v_idx = idx, chapters = [], containerFile = containerFile \<rparr>,
          addResource st containerFile (encode (volumeContent title))))"

definition wrapContent :: "string \<Rightarrow> string \<Rightarrow> string \<Rightarrow> bool \<Rightarrow> string" where
  "wrapContent content title contentType insertTitle =
     (if contentType = ''text''
      then ''<pre>'' @ (if insertTitle then ''<h1>'' @ title @ ''</h1>'' else []) @ content @ ''</pre>''
      else if contentType = ''html'' \<and> insertTitle
      then ''<h1>'' @ title @ ''</h1>'' @ content
      else content)"

fun registerResources :: "epub \<Rightarrow> (string \<times> string \<times> bytes) list \<Rightarrow> epub" where
  "registerResources st [] = st"
| "registerResources st ((url, path, data) # rs) =
     registerResources
       (addResource (st\<lparr>resourceUrls := mapSet (resourceUrls st) url path\<rparr>) path data) rs"

definition escapeChar :: "char \<Rightarrow> string" where
  \<open>escapeChar c =
     (if c = CHR ''<'' then ''&lt;''
      else if c = CHR ''>'' then ''&gt;''
      else if c = CHR ''&'' then ''&amp;''
      else if c = CHR 0x27 then ''&apos;''
      else if c = CHR ''"'' then ''&quot;''
      else [c])\<close>

definition escapeXml :: "string \<Rightarrow> string" where
  "escapeXml str = concat (map escapeChar str)"

text \<open>
  \<open>html.match(/<article>([\s\S]*?)<\/article>/i)\<close>: the leftmost opening tag that has a
  closing tag after it, and the text up to the first such closing tag. When the first
  opening tag has no closing tag after it, no later one has, so the search is for the
  first opening tag and then for the first closing tag after it.
\<close>

fun ciPrefix :: "string \<Rightarrow> string \<Rightarrow> bool" where
  "ciPrefix [] s = True"
| "ciPrefix (p # ps) [] = False"
| "ciPrefix (p # ps) (c # cs) = (lowerChar p = lowerChar c \<and> ciPrefix ps cs)"

fun afterFirst :: "string \<Rightarrow> string \<Rightarrow> string option" where
  "afterFirst p [] = (if p = [] then Some [] else None)"
| "afterFirst p (c # cs) =
     (if ciPrefix p (c # cs) then Some (drop (length p) (c # cs)) else afterFirst p cs)"

fun beforeFirst :: "string \<Rightarrow> string \<Rightarrow> string option" where
  "beforeFirst p [] = (if p = [] then Some [] else None)"
| "beforeFirst p (c # cs) =
     (if ciPrefix p (c # cs) then Some [] else map_option ((#) c) (beforeFirst p cs))"

definition matchBetween :: "string \<Rightarrow> string \<Rightarrow> string \<Rightarrow> string option" where
  "matchBetween opening closing html =
     (case afterFirst opening html of
        None \<Rightarrow> None
      | Some rest \<Rightarrow> beforeFirst closing rest)"

definition extractContent :: "string \<Rightarrow> string" where
  "extractContent html =
     (case matchBetween ''<article>'' ''</article>'' html of
        Some articleMatch \<Rightarrow> articleMatch
      | None \<Rightarrow>
          (case matchBetween ''<body>'' ''</body>'' html of
             Some bodyMatch \<Rightarrow> bodyMatch
           | None \<Rightarrow> html))"

subsection \<open>\<open>buildXhtml\<close>\<close>

text \<open>The links of a chapter: \<open>cssLinks\<close> after the two blocks that push to it.\<close>

definition findCss :: "stylesheet list \<Rightarrow> int \<Rightarrow> stylesheet option" where
  "findCss cs idx = find (\<lambda>c. s_idx c = idx) cs"

definition pushCss :: "stylesheet list \<Rightarrow> stylesheet list \<Rightarrow> int \<Rightarrow> stylesheet list" where
  "pushCss cs cssLinks idx =
     (case findCss cs idx of Some c \<Rightarrow> cssLinks @ [c] | None \<Rightarrow> cssLinks)"

definition cssLinks :: "stylesheet list \<Rightarrow> bool \<Rightarrow> int list \<Rightarrow> stylesheet list" where
  "cssLinks cs useGlobalCSS cssIdxs =
     foldl (pushCss cs) (if useGlobalCSS then pushCss cs [] 0 else []) cssIdxs"

definition linkTag :: "stylesheet \<Rightarrow> string" where
  \<open>linkTag c = ''<link href="'' @ s_filename c @ ''" rel="stylesheet"/>''\<close>

definition xhtmlHead :: string where
  \<open>xhtmlHead =
     ''<?xml version="1.0" encoding="UTF-8"?>\<newline><!DOCTYPE html>\<newline><html xmlns="http://www.w3.org/1999/xhtml">\<newline><head>\<newline><meta name="viewport" content="width=device-width, height=device-height, initial-scale=1.0"/>\<newline><title>''\<close>

definition buildXhtml :: "epub \<Rightarrow> string \<Rightarrow> string \<Rightarrow> bool \<Rightarrow> int list \<Rightarrow> string" where
  \<open>buildXhtml st content1 title useGlobalCSS cssIdxs =
     xhtmlHead @ escapeXml title @ ''</title>\<newline>''
     @ join ''\<newline>  '' (map linkTag (cssLinks (cssList st) useGlobalCSS cssIdxs))
     @ ''\<newline></head>\<newline><body>\<newline>'' @ extractContent content1
     @ ''\<newline></body>\<newline></html>''\<close>

subsection \<open>\<open>getExtension\<close>\<close>

definition getExtension :: "string \<Rightarrow> string \<Rightarrow> string" where
  "getExtension mimeType url =
     (let fromMime =
            (case get MIME_MAP mimeType of
               Some e \<Rightarrow> orElse e (pop (splitOn (\<lambda>c. c = CHR ''/'') mimeType))
             | None \<Rightarrow> pop (splitOn (\<lambda>c. c = CHR ''/'') mimeType));
          fromUrl =
            pop (splitOn (\<lambda>c. c = CHR ''.'')
                  (hd (splitOn (\<lambda>c. c = CHR ''#'' \<or> c = CHR ''?'') url)))
      in toLowerCase (orElse fromMime (orElse fromUrl ''bin'')))"

subsection \<open>\<open>processImages\<close>\<close>

text \<open>
  Each image's callback runs up to its first \<open>await\<close> before the next one starts: it
  returns at once (\<open>Skip\<close>), throws before any fetch and has its image removed by the
  handler (\<open>Fail\<close>), or starts the fetch of a URL (\<open>Fetch\<close>). \<open>resourceUrls\<close> does not
  change before all the callbacks have finished.
\<close>

datatype task = Skip | Fail | Fetch string

text \<open>The URL that is fetched: \<open>url.replace('http://', 'https://')\<close> on a URL that starts
  with \<open>http://\<close> replaces that prefix.\<close>

definition fetchUrl :: "env \<Rightarrow> string \<Rightarrow> string" where
  "fetchUrl e url =
     (if startsWith url ''http://'' \<and> secure e
      then ''https://'' @ drop (length ''http://'') url
      else url)"

definition startImage :: "env \<Rightarrow> (string, string) jsmap \<Rightarrow> (string, string) jsmap \<Rightarrow> task" where
  "startImage e urls attrs =
     (case get attrs ''src'' of
        None \<Rightarrow> Skip
      | Some url \<Rightarrow>
          if url = [] \<or> has urls url then Skip
          else if \<not> startsWith url ''http'' then Fail
          else Fetch (fetchUrl e url))"

fun startNode :: "env \<Rightarrow> (string, string) jsmap \<Rightarrow> node \<Rightarrow> task" where
  "startNode e urls (Markup m) = Skip"
| "startNode e urls (Img attrs) = startImage e urls attrs"

text \<open>
  The rest of a callback, once its fetch has settled; \<open>n\<close> is the image counter when the
  body has been read. Either the handler removes the image, or the image gets the next
  file name and the triple is staged.
\<close>

datatype outcome = Removed | Stored string string bytes

definition finishImage :: "env \<Rightarrow> nat \<Rightarrow> string \<Rightarrow> outcome" where
  "finishImage e n url =
     (case fetch e url of
        None \<Rightarrow> Removed
      | Some response \<Rightarrow>
          if \<not> r_ok response then Removed
          else
            let contentType =
                  (case r_contentType response of
                     Some h \<Rightarrow> orElse h ''application/octet-stream''
                   | None \<Rightarrow> ''application/octet-stream'');
                mimeType = hd (splitOn (\<lambda>c. c = CHR '';'') contentType);
                ext = getExtension mimeType url
            in (case r_body response of
                  None \<Rightarrow> Removed
                | Some arrayBuffer \<Rightarrow>
                    Stored url (''images/img'' @ string_of_nat n @ ''.'' @ ext) arrayBuffer))"

text \<open>The fetches settle in the order the environment gives; the counter goes up with
  each image stored.\<close>

fun settle :: "env \<Rightarrow> nat \<Rightarrow> (nat \<times> string) list \<Rightarrow> (nat \<times> outcome) list \<times> nat" where
  "settle e n [] = ([], n)"
| "settle e n ((i, url) # ps) =
     (case finishImage e n url of
        Removed \<Rightarrow> (let (os, n') = settle e n ps in ((i, Removed) # os, n'))
      | Stored u f d \<Rightarrow> (let (os, n') = settle e (Suc n) ps in ((i, Stored u f d) # os, n')))"

definition pendingFetches :: "task list \<Rightarrow> (nat \<times> string) list" where
  "pendingFetches tasks =
     concat (map (\<lambda>(i, t). case t of Fetch url \<Rightarrow> [(i, url)] | _ \<Rightarrow> [])
                 (zip [0..<length tasks] tasks))"

text \<open>What stands in the tree at position \<open>i\<close> when all callbacks have finished.\<close>

definition nodeResult :: "(nat \<times> outcome) list \<Rightarrow> nat \<Rightarrow> node \<Rightarrow> task \<Rightarrow> node option" where
  "nodeResult outs i nd t =
     (case t of
        Skip \<Rightarrow> Some nd
      | Fail \<Rightarrow> None
      | Fetch url \<Rightarrow>
          (case map_of outs i of
             Some (Stored u f d) \<Rightarrow>
               (case nd of
                  Img attrs \<Rightarrow> Some (Img (mapSet attrs ''src'' f))
                | Markup m \<Rightarrow> Some nd)
           | _ \<Rightarrow> None))"

definition stagedResources :: "(nat \<times> outcome) list \<Rightarrow> (string \<times> string \<times> bytes) list" where
  "stagedResources outs =
     concat (map (\<lambda>(i, out). case out of Stored u f d \<Rightarrow> [(u, f, d)] | Removed \<Rightarrow> []) outs)"

text \<open>\<open>.replace(/^<div>|<\/div>$/g, '')\<close>: a leading \<open><div>\<close> and a trailing \<open></div>\<close> go.\<close>

definition stripDiv :: "string \<Rightarrow> string" where
  "stripDiv s =
     (let s1 = (if startsWith s ''<div>'' then drop (length ''<div>'') s else s)
      in if endsWith s1 ''</div>'' then take (length s1 - length ''</div>'') s1 else s1)"

text \<open>The tasks of a tree, the outcomes of its fetches with the counter after them, and
  what stands at each position afterwards (\<open>None\<close> where the image was removed).\<close>

definition imageTasks :: "env \<Rightarrow> epub \<Rightarrow> node list \<Rightarrow> task list" where
  "imageTasks e st doc = map (startNode e (resourceUrls st)) doc"

definition imageOutcomes :: "env \<Rightarrow> epub \<Rightarrow> node list \<Rightarrow> (nat \<times> outcome) list \<times> nat" where
  "imageOutcomes e st doc =
     settle e (image (resourceCounters st)) (completion e (pendingFetches (imageTasks e st doc)))"

definition imageResults :: "env \<Rightarrow> epub \<Rightarrow> node list \<Rightarrow> node option list" where
  "imageResults e st doc =
     map (\<lambda>(i, nd, t). nodeResult (fst (imageOutcomes e st doc)) i nd t)
         (zip [0..<length doc] (zip doc (imageTasks e st doc)))"

definition processImagesDoc ::
  "env \<Rightarrow> epub \<Rightarrow> node list \<Rightarrow> node list \<times> (string \<times> string \<times> bytes) list \<times> epub" where
  "processImagesDoc e st doc =
     (let (outs, n') = imageOutcomes e st doc
      in (concat (map (\<lambda>r. case r of None \<Rightarrow> [] | Some nd \<Rightarrow> [nd]) (imageResults e st doc)),
          stagedResources outs,
          st\<lparr>resourceCounters := (resourceCounters st)\<lparr>image := n'\<rparr>\<rparr>))"

definition processImages ::
  "env \<Rightarrow> epub \<Rightarrow> string \<Rightarrow> string \<times> (string \<times> string \<times> bytes) list \<times> epub" where
  "processImages e st content =
     (let (doc', rs, st') = processImagesDoc e st (parseHtml e content)
      in (stripDiv (serializeHtml e doc'), rs, st'))"

subsection \<open>\<open>addChapter\<close>\<close>

text \<open>
  A \<open>Volume\<close> object is named by its position \<open>k\<close> in \<open>volumes\<close> at the time of the call.
  The class is instantiated in \<open>addVolume\<close> only, which pushes the object, and nothing
  removes one: a position beyond the list names no object, and the state is returned as
  it is there. The result is the chapter's index and the new state.
\<close>

definition addChapter ::
  "env \<Rightarrow> epub \<Rightarrow> nat \<Rightarrow> int \<Rightarrow> string \<Rightarrow> string \<Rightarrow> string \<Rightarrow> bool \<Rightarrow> bool \<Rightarrow> int list \<Rightarrow> int \<times> epub" where
  "addChapter e st k idx content title contentType insertTitle useGlobalCSS cssIdxs =
     (if k < length (volumes st) then
        (let this = volumes st ! k;
             chapD = extractContent content;
             processed = wrapContent chapD title contentType insertTitle;
             (finalContent, rs, st1) = processImages e st processed;
             st2 = registerResources st1 rs;
             xhtml = buildXhtml st2 finalContent title useGlobalCSS cssIdxs;
             filename = ''chapter_'' @ string_of_int (v_idx this) @ ''_'' @ string_of_int idx @ ''.xhtml'';
             st3 = addResource st2 filename (encode xhtml);
             this' = this\<lparr>chapters := chapters this @ [\<lparr> c_idx = idx, c_title = title, c_filename = filename \<rparr>]\<rparr>
         in (idx, st3\<lparr>volumes := (volumes st3)[k := this']\<rparr>))
      else (idx, st))"

section \<open>Class \<open>EpubSaver\<close>\<close>

definition addVolume :: "epub \<Rightarrow> string \<Rightarrow> int \<Rightarrow> nat \<times> epub" where
  "addVolume st title idx =
     (let (volume, st') = newVolume st title idx
      in (length (volumes st'), st'\<lparr>volumes := volumes st' @ [volume]\<rparr>))"

subsection \<open>\<open>setInfo\<close>\<close>

datatype error = FetchRejected

definition setInfo :: "env \<Rightarrow> epub \<Rightarrow> string \<Rightarrow> infoValue \<Rightarrow> error + epub" where
  "setInfo e st tag v =
     (if tag = ''cover'' then
        (case v of
           Str url \<Rightarrow>
             (case fetch e url of
                None \<Rightarrow> Inl FetchRejected
              | Some response \<Rightarrow>
                  (case r_body response of
                     None \<Rightarrow> Inl FetchRejected
                   | Some arrayBuffer \<Rightarrow> Inr (st\<lparr>info := (info st)\<lparr>cover := Some arrayBuffer\<rparr>\<rparr>)))
         | Bin b \<Rightarrow> Inr (st\<lparr>info := (info st)\<lparr>cover := Some b\<rparr>\<rparr>))
      else if tag = ''bookname'' then Inr (st\<lparr>info := (info st)\<lparr>bookname := Some v\<rparr>\<rparr>)
      else if tag = ''author'' then Inr (st\<lparr>info := (info st)\<lparr>author := Some v\<rparr>\<rparr>)
      else if tag = ''introduction'' then Inr (st\<lparr>info := (info st)\<lparr>introduction := Some v\<rparr>\<rparr>)
      else Inr st)"

subsection \<open>\<open>processCSSUrls\<close> and \<open>addCSS\<close>\<close>

text \<open>
  The loop over the matches of \<open>urlRegex\<close>: \<open>cssUrlMatches\<close> gives the captured URLs in
  order, and \<open>cssReplace\<close> is the final \<open>reduce\<close> over the replacements.
\<close>

fun cssUrlLoop :: "env \<Rightarrow> epub \<Rightarrow> string list \<Rightarrow> (string \<times> string) list \<times> epub" where
  "cssUrlLoop e st [] = ([], st)"
| "cssUrlLoop e st (url # urls) =
     (let st1 =
            (if \<not> has (resourceUrls st) url then
               (case fetch e url of
                  None \<Rightarrow> st
                | Some response \<Rightarrow>
                    (case r_body response of
                       None \<Rightarrow> st
                     | Some arrayBuffer \<Rightarrow>
                         let ext = orElse (hd (splitOn (\<lambda>c. c = CHR ''#'' \<or> c = CHR ''?'')
                                                 (pop (splitOn (\<lambda>c. c = CHR ''.'') url)))) ''bin'';
                             filename = ''resources/res'' @ string_of_nat (other (resourceCounters st))
                                        @ ''.'' @ ext;
                             st' = st\<lparr>resourceCounters :=
                                        (resourceCounters st)\<lparr>other := Suc (other (resourceCounters st))\<rparr>\<rparr>;
                             st'' = addResource st' filename arrayBuffer
                         in st''\<lparr>resourceUrls := mapSet (resourceUrls st'') url filename\<rparr>))
             else st);
          replacement = (url, case get (resourceUrls st1) url of Some path \<Rightarrow> orElse path url | None \<Rightarrow> url);
          (replacements, st2) = cssUrlLoop e st1 urls
      in (replacement # replacements, st2))"

definition processCSSUrls :: "env \<Rightarrow> epub \<Rightarrow> string \<Rightarrow> string \<times> epub" where
  "processCSSUrls e st cssText =
     (let (replacements, st') = cssUrlLoop e st (cssUrlMatches e cssText)
      in (cssReplace e replacements cssText, st'))"

definition addCSS :: "env \<Rightarrow> epub \<Rightarrow> int \<Rightarrow> string \<Rightarrow> string \<Rightarrow> string \<Rightarrow> error + (int \<times> epub)" where
  "addCSS e st idx content filename mapname =
     (case (if startsWith content ''http://'' \<or> startsWith content ''https://''
            then (case fetch e content of
                    None \<Rightarrow> None
                  | Some response \<Rightarrow> r_body response)
            else Some content) of
        None \<Rightarrow> Inl FetchRejected
      | Some cssContent0 \<Rightarrow>
          let (cssContent, st1) = processCSSUrls e st cssContent0;
              (filename', st2) =
                (if filename = []
                 then (''Styles/style'' @ string_of_nat (css (resourceCounters st1)) @ ''.css'',
                       st1\<lparr>resourceCounters :=
                             (resourceCounters st1)\<lparr>css := Suc (css (resourceCounters st1))\<rparr>\<rparr>)
                 else (filename, st1));
              st3 = addResource st2 filename' (encode cssContent);
              st4 = st3\<lparr>cssList := cssList st3 @ [\<lparr> s_idx = idx, s_filename = filename', s_mapname = mapname \<rparr>]\<rparr>;
              st5 = (if mapname \<noteq> [] then st4\<lparr>cssMap := mapSet (cssMap st4) mapname idx\<rparr> else st4)
          in Inr (idx, st5))"

subsection \<open>The generators\<close>

text \<open>
  \<open>xs.sort((a, b) => a.idx - b.idx)\<close> sorts in place, ascending in \<open>idx\<close>, and keeps
  elements of equal \<open>idx\<close> in their order: the stable sort \<^const>\<open>sort_key\<close>. Each
  generator returns its text and the state with the lists it has sorted.
\<close>

definition sortVolumes :: "volume list \<Rightarrow> volume list" where
  "sortVolumes vs = sort_key v_idx vs"

definition sortChapters :: "chap list \<Rightarrow> chap list" where
  "sortChapters cs = sort_key c_idx cs"

text \<open>The volumes as the loops of a generator leave them: sorted, and the chapters of each
  sorted.\<close>

definition sortCatalog :: "volume list \<Rightarrow> volume list" where
  "sortCatalog vs = map (\<lambda>v. v\<lparr>chapters := sortChapters (chapters v)\<rparr>) (sortVolumes vs)"

text \<open>\<open>this.info.bookname || 'Untitled'\<close> in a template literal; a \<open>Uint8Array\<close> is truthy
  and prints as its numbers with commas.\<close>

definition showInfo :: "infoValue option \<Rightarrow> string \<Rightarrow> string" where
  "showInfo v dflt =
     (case v of
        None \<Rightarrow> dflt
      | Some (Str s) \<Rightarrow> orElse s dflt
      | Some (Bin b) \<Rightarrow> join '','' (map (\<lambda>c. string_of_nat (of_char c)) b))"

text \<open>\<open>vol.chapters[0]?.filename\<close>: \<open>None\<close> is \<open>undefined\<close>.\<close>

definition firstFilename :: "chap list \<Rightarrow> string option" where
  "firstFilename cs = (case cs of [] \<Rightarrow> None | c # _ \<Rightarrow> Some (c_filename c))"

paragraph \<open>\<open>generateNcx\<close>\<close>

text \<open>A navigation point: the play order, the label and the \<open>src\<close> of its content.\<close>

record navPoint =
  np_order :: nat
  np_label :: string
  np_src :: string

definition chapterPoints :: "nat \<Rightarrow> chap list \<Rightarrow> navPoint list" where
  "chapterPoints playOrder cs =
     map (\<lambda>(i, chap). \<lparr> np_order = playOrder + i, np_label = c_title chap, np_src = c_filename chap \<rparr>)
         (zip [0..<length cs] cs)"

fun ncxVolumes :: "nat \<Rightarrow> volume list \<Rightarrow> (navPoint \<times> navPoint list) list \<times> volume list" where
  "ncxVolumes playOrder [] = ([], [])"
| "ncxVolumes playOrder (vol # vs) =
     (let volumePoint =
            \<lparr> np_order = playOrder, np_label = v_title vol,
              np_src = (case firstFilename (chapters vol) of
                          None \<Rightarrow> orElse (containerFile vol) ''undefined''
                        | Some f \<Rightarrow> orElse (containerFile vol) f) \<rparr>;
          cs = sortChapters (chapters vol);
          (rest, vs') = ncxVolumes (playOrder + 1 + length cs) vs
      in ((volumePoint, chapterPoints (playOrder + 1) cs) # rest, vol\<lparr>chapters := cs\<rparr> # vs'))"

definition renderChapterPoint :: "navPoint \<Rightarrow> string" where
  \<open>renderChapterPoint np =
     ''\<newline>    <navPoint id="navpoint-'' @ string_of_nat (np_order np)
     @ ''" playOrder="'' @ string_of_nat (np_order np)
     @ ''">\<newline>      <navLabel><text>'' @ np_label np
     @ ''</text></navLabel>\<newline>      <content src="'' @ np_src np
     @ ''"/>\<newline>    </navPoint>''\<close>

definition renderVolumePoint :: "navPoint \<times> navPoint list \<Rightarrow> string" where
  \<open>renderVolumePoint p =
     ''\<newline><navPoint id="navpoint-'' @ string_of_nat (np_order (fst p))
     @ ''" playOrder="'' @ string_of_nat (np_order (fst p))
     @ ''">\<newline>  <navLabel><text>'' @ np_label (fst p)
     @ ''</text></navLabel>\<newline>  <content src="'' @ np_src (fst p) @ ''"/>''
     @ join [] (map renderChapterPoint (snd p)) @ ''</navPoint>''\<close>

definition ncxPoints :: "epub \<Rightarrow> (navPoint \<times> navPoint list) list" where
  "ncxPoints st = fst (ncxVolumes 1 (sortVolumes (volumes st)))"

definition generateNcx :: "epub \<Rightarrow> string \<times> epub" where
  \<open>generateNcx st =
     (''<?xml version="1.0" encoding="UTF-8"?>\<newline><!DOCTYPE ncx PUBLIC "-//NISO//DTD ncx 2005-1//EN" "http://www.daisy.org/z3986/2005/ncx-2005-1.dtd">\<newline><ncx xmlns="http://www.daisy.org/z3986/2005/ncx/" version="2005-1">\<newline><head>\<newline><meta name="dtb:uid" content="urn:uuid:''
      @ uuid st
      @ ''"/>\<newline><meta name="dtb:depth" content="2"/>\<newline><meta name="dtb:totalPageCount" content="0"/>\<newline><meta name="dtb:maxPageNumber" content="0"/>\<newline></head>\<newline><docTitle>\<newline><text>''
      @ showInfo (bookname (info st)) ''Untitled''
      @ ''</text>\<newline></docTitle>\<newline><navMap>\<newline>''
      @ join [] (map renderVolumePoint (ncxPoints st))
      @ ''\<newline></navMap>\<newline></ncx>'',
      st\<lparr>volumes := snd (ncxVolumes 1 (sortVolumes (volumes st)))\<rparr>)\<close>

paragraph \<open>\<open>generateOpf\<close>\<close>

record item =
  i_id :: string
  i_href :: string
  i_mediaType :: string
  i_properties :: "string option"

definition renderItem :: "item \<Rightarrow> string" where
  \<open>renderItem it =
     ''<item id="'' @ i_id it @ ''" href="'' @ i_href it @ ''" media-type="'' @ i_mediaType it @ ''"''
     @ (case i_properties it of None \<Rightarrow> [] | Some pr \<Rightarrow> '' properties="'' @ pr @ ''"'')
     @ ''/>''\<close>

text \<open>\<open>path.replace(/[^a-z0-9]/gi, '-')\<close>\<close>

definition sanitize :: "string \<Rightarrow> string" where
  "sanitize path =
     map (\<lambda>c. if c \<in> set ''abcdefghijklmnopqrstuvwxyzABCDEFGHIJKLMNOPQRSTUVWXYZ0123456789''
               then c else CHR ''-'') path"

definition mediaType :: "string \<Rightarrow> string" where
  "mediaType path =
     (if endsWith path ''.xhtml'' then ''application/xhtml+xml''
      else if endsWith path ''.css'' then ''text/css''
      else if endsWith path ''.jpg'' \<or> endsWith path ''.jpeg'' then ''image/jpeg''
      else if endsWith path ''.png'' then ''image/png''
      else ''application/octet-stream'')"

definition coverHtml :: string where
  \<open>coverHtml =
     ''<?xml version="1.0" encoding="UTF-8"?>\<newline><!DOCTYPE html>\<newline><html xmlns="http://www.w3.org/1999/xhtml">\<newline><head>\<newline><meta name="viewport" content="width=device-width, height=device-height, initial-scale=1.0, minimum-scale=1.0"/>\<newline><title>Cover</title>\<newline></head>\<newline><body>\<newline><div style="text-align: center; padding: 0pt; margin: 0pt;">\<newline><img src="images/cover.jpg" alt="Cover Image" style="height: 100%; max-width: 100%;"/>\<newline></div>\<newline></body>\<newline></html>''\<close>

definition opfMetadata :: "env \<Rightarrow> epub \<Rightarrow> string list" where
  \<open>opfMetadata e st =
     [''<dc:identifier id="BookId">urn:uuid:'' @ uuid st @ ''</dc:identifier>'',
      ''<dc:title>'' @ showInfo (bookname (info st)) ''Untitled'' @ ''</dc:title>'',
      ''<dc:creator>'' @ showInfo (author (info st)) ''Unknown'' @ ''</dc:creator>'',
      ''<dc:description>'' @ showInfo (introduction (info st)) [] @ ''</dc:description>'',
      ''<dc:language>zh-CN</dc:language>'',
      ''<meta property="dcterms:modified">'' @ now e @ ''Z</meta>'']
     @ (if cover (info st) \<noteq> None
        then [''<meta name="cover" content="cover-image"/>'',
              ''<meta property="rendition:layout">pre-paginated</meta>'']
        else [])\<close>

text \<open>The state after the block that materializes the cover.\<close>

definition opfCover :: "epub \<Rightarrow> epub" where
  "opfCover st =
     (case cover (info st) of
        None \<Rightarrow> st
      | Some c \<Rightarrow> addResource (addResource st ''images/cover.jpg'' c) ''cover.xhtml'' (encode coverHtml))"

text \<open>The item that the loop over \<open>resources\<close> pushes for a path.\<close>

definition resourceItem :: "string \<Rightarrow> item" where
  "resourceItem path =
     \<lparr> i_id = sanitize path, i_href = path, i_mediaType = mediaType path, i_properties = None \<rparr>"

definition opfManifest :: "epub \<Rightarrow> item list" where
  "opfManifest st =
     [\<lparr> i_id = ''nav'', i_href = ''nav.xhtml'', i_mediaType = ''application/xhtml+xml'',
        i_properties = Some ''nav'' \<rparr>,
      \<lparr> i_id = ''ncx'', i_href = ''toc.ncx'', i_mediaType = ''application/x-dtbncx+xml'',
        i_properties = None \<rparr>]
     @ (if cover (info st) \<noteq> None
        then [\<lparr> i_id = ''cover-image'', i_href = ''images/cover.jpg'', i_mediaType = ''image/jpeg'',
                i_properties = Some ''cover-image'' \<rparr>,
              \<lparr> i_id = ''cover'', i_href = ''cover.xhtml'', i_mediaType = ''application/xhtml+xml'',
                i_properties = None \<rparr>]
        else [])
     @ map (\<lambda>(path, _). resourceItem path) (resources (opfCover st))"

text \<open>The \<open>idref\<close>s of the spine, and the volumes as the loops leave them.\<close>

fun spineVolumes :: "volume list \<Rightarrow> string list \<times> volume list" where
  "spineVolumes [] = ([], [])"
| "spineVolumes (v # vs) =
     (let cs = sortChapters (chapters v);
          (rest, vs') = spineVolumes vs
      in (map (\<lambda>c. sanitize (c_filename c)) cs @ rest, v\<lparr>chapters := cs\<rparr> # vs'))"

definition opfSpine :: "epub \<Rightarrow> string list" where
  "opfSpine st =
     (if cover (info st) \<noteq> None then [''cover''] else [])
     @ fst (spineVolumes (sortVolumes (volumes st)))"

definition renderItemref :: "string \<Rightarrow> string" where
  \<open>renderItemref idref = ''<itemref idref="'' @ idref @ ''"/>''\<close>

text \<open>The \<open>href\<close> of the guide's reference, when there is one.\<close>

definition opfGuide :: "epub \<Rightarrow> string option" where
  "opfGuide st = (if cover (info st) \<noteq> None then Some ''cover.xhtml'' else None)"

definition generateOpf :: "env \<Rightarrow> epub \<Rightarrow> string \<times> epub" where
  \<open>generateOpf e st =
     (''<?xml version="1.0" encoding="UTF-8"?>\<newline><package xmlns="http://www.idpf.org/2007/opf" unique-identifier="BookId" version="3.0">\<newline><metadata xmlns:dc="http://purl.org/dc/elements/1.1/">\<newline>''
      @ join ''\<newline>    '' (opfMetadata e st)
      @ ''\<newline></metadata>\<newline><manifest>\<newline>''
      @ join ''\<newline>    '' (map renderItem (opfManifest st))
      @ ''\<newline></manifest>\<newline><spine toc="ncx">\<newline>''
      @ join ''\<newline>    '' (map renderItemref (opfSpine st))
      @ ''\<newline></spine>\<newline><guide>\<newline>''
      @ (case opfGuide st of
           None \<Rightarrow> []
         | Some href \<Rightarrow> ''<reference href="'' @ href @ ''" type="cover" title="Cover"/>'')
      @ ''\<newline></guide>\<newline></package>'',
      (opfCover st)\<lparr>volumes := snd (spineVolumes (sortVolumes (volumes st)))\<rparr>)\<close>

paragraph \<open>\<open>generateNav\<close>\<close>

text \<open>An entry of the navigation list: the volume's link and title, and the link and
  title of each of its chapters.\<close>

record navItem =
  n_href :: string
  n_title :: string
  n_chapters :: "(string \<times> string) list"

fun navVolumes :: "volume list \<Rightarrow> navItem list \<times> volume list" where
  "navVolumes [] = ([], [])"
| "navVolumes (v # vs) =
     (let href = (case firstFilename (chapters v) of None \<Rightarrow> [] | Some f \<Rightarrow> orElse f []);
          cs = sortChapters (chapters v);
          (rest, vs') = navVolumes vs
      in (\<lparr> n_href = href, n_title = v_title v,
            n_chapters = map (\<lambda>c. (c_filename c, c_title c)) cs \<rparr> # rest,
          v\<lparr>chapters := cs\<rparr> # vs'))"

definition renderNavChapter :: "string \<times> string \<Rightarrow> string" where
  \<open>renderNavChapter c =
     ''\<newline>      <li><a href="'' @ fst c @ ''">'' @ snd c @ ''</a></li>\<newline>    ''\<close>

definition renderNavItem :: "navItem \<Rightarrow> string" where
  \<open>renderNavItem it =
     ''\<newline><li>\<newline>  <a href="'' @ n_href it @ ''">'' @ n_title it
     @ ''</a>\<newline>  <ol>\<newline>    '' @ join [] (map renderNavChapter (n_chapters it))
     @ ''\<newline>  </ol>\<newline></li>\<newline>''\<close>

definition navItems :: "epub \<Rightarrow> navItem list" where
  "navItems st = fst (navVolumes (sortVolumes (volumes st)))"

definition generateNav :: "epub \<Rightarrow> string \<times> epub" where
  \<open>generateNav st =
     (''<?xml version="1.0" encoding="UTF-8"?>\<newline><html xmlns="http://www.w3.org/1999/xhtml" xmlns:epub="http://www.idpf.org/2007/ops">\<newline><head>\<newline><title>Table of Contents</title>\<newline></head>\<newline><body>\<newline><nav epub:type="toc">\<newline><h1>Table of Contents</h1>\<newline><ol>\<newline>''
      @ join [] (map renderNavItem (navItems st))
      @ ''\<newline></ol>\<newline></nav>\<newline></body>\<newline></html>'',
      st\<lparr>volumes := snd (navVolumes (sortVolumes (volumes st)))\<rparr>)\<close>

subsection \<open>\<open>save\<close>\<close>

text \<open>
  What the archive library is given: the \<open>file\<close> calls in order, each with the folder it
  is made in, the name, the data and the compression option of the call (\<open>None\<close> when
  the call gives none), and the compression option of \<open>generateAsync\<close>. The library
  compresses an entry with its own option when it has one, and with the option of
  \<open>generateAsync\<close> otherwise.
\<close>

datatype compression = STORE | DEFLATE

record zipEntry =
  z_folder :: string
  z_name :: string
  z_data :: bytes
  z_compression :: "compression option"

record archive =
  entries :: "zipEntry list"
  a_compression :: compression

definition methodOf :: "archive \<Rightarrow> zipEntry \<Rightarrow> compression" where
  "methodOf a ent = (case z_compression ent of Some c \<Rightarrow> c | None \<Rightarrow> a_compression a)"

definition containerXml :: string where
  \<open>containerXml =
     ''<?xml version="1.0"?>\<newline><container version="1.0" xmlns="urn:oasis:names:tc:opendocument:xmlns:container">\<newline><rootfiles>\<newline><rootfile full-path="OEBPS/content.opf" media-type="application/oebps-package+xml"/>\<newline></rootfiles>\<newline></container>''\<close>

definition save :: "env \<Rightarrow> epub \<Rightarrow> archive \<times> epub" where
  "save e st =
     (let zip0 = [\<lparr> z_folder = [], z_name = ''mimetype'', z_data = ''application/epub+zip'',
                    z_compression = Some STORE \<rparr>];
          zip1 = zip0 @ [\<lparr> z_folder = ''META-INF'', z_name = ''container.xml'',
                           z_data = containerXml, z_compression = None \<rparr>];
          (opf, st1) = generateOpf e st;
          zip2 = zip1 @ [\<lparr> z_folder = ''OEBPS'', z_name = ''content.opf'', z_data = opf,
                           z_compression = None \<rparr>];
          (ncxContent, st2) = generateNcx st1;
          zip3 = zip2 @ [\<lparr> z_folder = ''OEBPS'', z_name = ''toc.ncx'', z_data = ncxContent,
                           z_compression = None \<rparr>];
          zip4 = zip3 @ map (\<lambda>(path, content).
                              \<lparr> z_folder = ''OEBPS'', z_name = path, z_data = content,
                                z_compression = None \<rparr>) (resources st2);
          (nav, st3) = generateNav st2;
          zip5 = zip4 @ [\<lparr> z_folder = ''OEBPS'', z_name = ''nav.xhtml'', z_data = nav,
                           z_compression = None \<rparr>]
      in (\<lparr> entries = zip5, a_compression = DEFLATE \<rparr>, st3))"

section \<open>Call sequences\<close>

text \<open>
  The calls a caller can make on a document, each awaited before the next. A call that
  throws leaves the document as it was, and the caller may go on. \<open>createCSSMap\<close> is a
  sequence of \<open>addCSS\<close> calls.
\<close>

datatype call =
    AddVolume string int
  | AddChapter nat int string string string bool bool "int list"
  | AddCSS int string string string
  | SetInfo string infoValue
  | Save

fun exec :: "env \<Rightarrow> epub \<Rightarrow> call \<Rightarrow> epub" where
  "exec e st (AddVolume title idx) = snd (addVolume st title idx)"
| "exec e st (AddChapter k idx content title contentType insertTitle useGlobalCSS cssIdxs) =
     snd (addChapter e st k idx content title contentType insertTitle useGlobalCSS cssIdxs)"
| "exec e st (AddCSS idx content filename mapname) =
     (case addCSS e st idx content filename mapname of Inl err \<Rightarrow> st | Inr (i, st') \<Rightarrow> st')"
| "exec e st (SetInfo tag v) =
     (case setInfo e st tag v of Inl err \<Rightarrow> st | Inr st' \<Rightarrow> st')"
| "exec e st Save = snd (save e st)"

definition run :: "env \<Rightarrow> epub \<Rightarrow> call list \<Rightarrow> epub" where
  "run e st calls = foldl (exec e) st calls"

section \<open>The files of the catalog\<close>

text \<open>
  The invariant that ties the catalog to the resource table: the container file of
  every volume and the file of every chapter have a name and are registered.
\<close>

definition filesRegistered :: "epub \<Rightarrow> bool" where
  "filesRegistered st =
     (\<forall>v \<in> set (volumes st).
        containerFile v \<noteq> [] \<and> has (resources st) (containerFile v)
        \<and> (\<forall>c \<in> set (chapters v). c_filename c \<noteq> [] \<and> has (resources st) (c_filename c)))"

section \<open>An environment for the examples\<close>

text \<open>
  A network with one image that exists and one that does not, a parser that knows
  \<open><img src="...">\<close> and a serializer that prints a document the way an XML
  serializer prints an HTML document, fetches settling in document order, an insecure
  page, and stylesheets without \<open>url(...)\<close>.
\<close>

definition sampleFetch :: "string \<Rightarrow> response option" where
  "sampleFetch url =
     (if url = ''http://h/a.png''
      then Some \<lparr> r_ok = True, r_contentType = Some ''image/png'', r_body = Some ''PNG'' \<rparr>
      else if url = ''http://h/gone.png''
      then Some \<lparr> r_ok = False, r_contentType = Some ''text/html'', r_body = Some ''404'' \<rparr>
      else None)"

fun sampleParse :: "string \<Rightarrow> node list" where
  "sampleParse [] = []"
| \<open>sampleParse (c # cs) =
     (if startsWith (c # cs) ''<img src="''
      then (let rest = drop (length ''<img src="'') (c # cs);
                url = takeWhile (\<lambda>x. x \<noteq> CHR ''"'') rest
            in Img [(''src'', url)] # sampleParse (drop (length url + length ''">'') rest))
      else (case sampleParse cs of
              Markup m # ns \<Rightarrow> Markup (c # m) # ns
            | ns \<Rightarrow> Markup [c] # ns))\<close>

fun sampleSerializeNode :: "node \<Rightarrow> string" where
  "sampleSerializeNode (Markup m) = m"
| \<open>sampleSerializeNode (Img attrs) =
     ''<img'' @ concat (map (\<lambda>(k, v). '' '' @ k @ ''="'' @ v @ ''"'') attrs) @ '' />''\<close>

definition sampleEnv :: env where
  \<open>sampleEnv =
     \<lparr> fetch = sampleFetch, completion = (\<lambda>ps. ps), secure = False,
       parseHtml = sampleParse,
       serializeHtml = (\<lambda>doc. ''<html xmlns="http://www.w3.org/1999/xhtml"><head></head><body>''
                                @ concat (map sampleSerializeNode doc) @ ''</body></html>''),
       now = ''2026-01-01T00:00:00'',
       cssUrlMatches = (\<lambda>cssText. []), cssReplace = (\<lambda>replacements cssText. cssText) \<rparr>\<close>

section \<open>The specification's wording\<close>

text \<open>
  The extension as the specification words it: the table's entry for the declared
  content type; failing that, the extension of the URL's path, the text after the last
  dot of the URL up to a \<open>#\<close> or \<open>?\<close>; failing that, \<open>bin\<close>.
\<close>

definition specExtension :: "string \<Rightarrow> string \<Rightarrow> string" where
  "specExtension mimeType url =
     (case get MIME_MAP mimeType of
        Some ext \<Rightarrow> ext
      | None \<Rightarrow>
          (let fromUrl = rev (takeWhile (\<lambda>c. c \<noteq> CHR ''.'')
                                (rev (takeWhile (\<lambda>c. c \<noteq> CHR ''#'' \<and> c \<noteq> CHR ''?'') url)))
           in if fromUrl \<noteq> [] then fromUrl else ''bin''))"

text \<open>
  The links of a chapter as the specification words them: the first stylesheet of index
  0 when the global stylesheet is asked for and there is one, then, for each requested
  index in order, the first stylesheet of that index when there is one.
\<close>

definition specLinks :: "stylesheet list \<Rightarrow> bool \<Rightarrow> int list \<Rightarrow> stylesheet list" where
  "specLinks cs useGlobalCSS cssIdxs =
     (if useGlobalCSS \<and> (\<exists>c \<in> set cs. s_idx c = 0) then [the (find (\<lambda>c. s_idx c = 0) cs)] else [])
     @ map (\<lambda>i. the (find (\<lambda>c. s_idx c = i) cs)) (filter (\<lambda>i. \<exists>c \<in> set cs. s_idx c = i) cssIdxs)"

section \<open>Facts about the tables\<close>

lemma has_iff_dom: "has m k \<longleftrightarrow> k \<in> dom (map_of m)"
  by (simp add: has_def dom_map_of_conv_image_fst)

lemma has_mapSet: "has (mapSet m k v) k' \<longleftrightarrow> k' = k \<or> has m k'"
  by (auto simp: has_def mapSet_def dom_update)

lemma get_mapSet: "get (mapSet m k v) k' = (if k' = k then Some v else get m k')"
  by (simp add: get_def mapSet_def update_conv')

lemma distinct_mapSet: "distinct (keys m) \<Longrightarrow> distinct (keys (mapSet m k v))"
  by (simp add: keys_def mapSet_def distinct_update)

lemma mapSet_fresh: "\<not> has m k \<Longrightarrow> mapSet m k v = m @ [(k, v)]"
  by (induction m) (auto simp: has_def mapSet_def)

lemma has_addResource:
  "has (resources (addResource st p b)) q \<longleftrightarrow> q = p \<or> has (resources st) q"
  by (auto simp: addResource_def has_mapSet)

lemma get_addResource:
  "get (resources (addResource st p b)) q =
     (if q = p \<and> \<not> has (resources st) p then Some b else get (resources st) q)"
  by (simp add: addResource_def get_mapSet)

lemma distinct_addResource:
  "distinct (keys (resources st)) \<Longrightarrow> distinct (keys (resources (addResource st p b)))"
  by (simp add: addResource_def distinct_mapSet)

lemma get_None_iff: "get m k = None \<longleftrightarrow> \<not> has m k"
  by (auto simp: get_def has_iff_dom)

lemma distinct_registerAll:
  "distinct (keys (resources st)) \<Longrightarrow> distinct (keys (resources (registerAll st regs)))"
  by (induction st regs rule: registerAll.induct) (simp_all add: distinct_addResource)

lemma get_registerAll:
  "get (resources (registerAll st regs)) p =
     (if has (resources st) p then get (resources st) p
      else map_option snd (find (\<lambda>r. fst r = p) regs))"
proof (induction st regs rule: registerAll.induct)
  case (1 st)
  then show ?case by (simp add: get_None_iff)
next
  case (2 st path content regs)
  then show ?case
    by (simp add: get_addResource has_addResource)
qed

section \<open>Facts about strings\<close>

lemma splitOn_ne: "splitOn P s \<noteq> []"
  by (induction s) (auto split: list.splits)

lemma hd_splitOn: "hd (splitOn P s) = takeWhile (\<lambda>c. \<not> P c) s"
  by (induction s) (auto split: list.splits simp: splitOn_ne)

lemma splitOn_none: "\<forall>c\<in>set s. \<not> P c \<Longrightarrow> splitOn P s = [s]"
  by (induction s) auto

lemma splitOn_some: "\<exists>c\<in>set s. P c \<Longrightarrow> tl (splitOn P s) \<noteq> []"
proof (induction s)
  case Nil
  then show ?case by simp
next
  case (Cons a s)
  show ?case
  proof (cases "P a")
    case True
    then show ?thesis by (simp add: splitOn_ne)
  next
    case False
    with Cons.prems have "\<exists>c\<in>set s. P c" by auto
    then have "tl (splitOn P s) \<noteq> []" by (rule Cons.IH)
    with False show ?thesis by (cases "splitOn P s") auto
  qed
qed

lemma pop_splitOn: "pop (splitOn P s) = rev (takeWhile (\<lambda>c. \<not> P c) (rev s))"
proof (induction s)
  case Nil
  then show ?case by (simp add: pop_def)
next
  case (Cons c cs)
  show ?case
  proof (cases "\<exists>x\<in>set cs. P x")
    case True
    then have t: "tl (splitOn P cs) \<noteq> []" by (rule splitOn_some)
    then obtain p q ps where e: "splitOn P cs = p # q # ps"
      by (cases "splitOn P cs"; cases "tl (splitOn P cs)") auto
    from True have "takeWhile (\<lambda>c. \<not> P c) (rev cs @ [c]) = takeWhile (\<lambda>c. \<not> P c) (rev cs)"
      by (auto simp: takeWhile_append)
    with Cons e show ?thesis by (auto simp: pop_def)
  next
    case False
    then have "splitOn P cs = [cs]" by (simp add: splitOn_none)
    with False show ?thesis by (auto simp: takeWhile_append pop_def)
  qed
qed

lemma MIME_MAP_nonempty: "get MIME_MAP m = Some ext \<Longrightarrow> ext \<noteq> []"
  by (auto simp: get_def MIME_MAP_def split: if_splits)

lemma join_Cons: "join sep (x # xs) = x @ concat (map (\<lambda>y. sep @ y) xs)"
  by (induction xs arbitrary: x) simp_all

section \<open>Path uniqueness and first-write-wins\<close>

text \<open>
  C2. Whatever the sequence of registrations made on a new document, the resource table
  has no path twice, and the bytes under a path are those of the first registration of
  that path in the sequence (nothing when it was never registered). On any document, a
  registration under a path already present returns the document unchanged, and a
  sequence of registrations never changes the bytes of a path already present.
\<close>

theorem addResource_first_write_wins:
  "distinct (keys (resources (registerAll (newEpub u) regs)))
   \<and> get (resources (registerAll (newEpub u) regs)) p
       = map_option snd (find (\<lambda>r. fst r = p) regs)
   \<and> (has (resources st) p \<longrightarrow> addResource st p b = st)
   \<and> (get (resources st) p = Some b0 \<longrightarrow> get (resources (registerAll st regs)) p = Some b0)"
proof -
  have e: "resources (newEpub u) = []"
    by (simp add: newEpub_def)
  have "distinct (keys (resources (registerAll (newEpub u) regs)))"
    by (rule distinct_registerAll) (simp add: e keys_def)
  moreover have "get (resources (registerAll (newEpub u) regs)) p
       = map_option snd (find (\<lambda>r. fst r = p) regs)"
    by (simp add: get_registerAll e has_def)
  moreover have "has (resources st) p \<longrightarrow> addResource st p b = st"
    by (simp add: addResource_def)
  moreover have "get (resources st) p = Some b0 \<longrightarrow>
      get (resources (registerAll st regs)) p = Some b0"
    using get_None_iff [of "resources st" p] by (auto simp: get_registerAll)
  ultimately show ?thesis by blast
qed

theorem addResource_first_write_wins_witness:
  "keys (resources (registerAll (newEpub ''u'') [(''a.css'', ''one''), (''b.css'', ''two''), (''a.css'', ''three'')]))
     = [''a.css'', ''b.css'']
   \<and> get (resources (registerAll (newEpub ''u'') [(''a.css'', ''one''), (''b.css'', ''two''), (''a.css'', ''three'')])) ''a.css''
     = Some ''one''
   \<and> has (resources (registerAll (newEpub ''u'') [(''a.css'', ''one'')])) ''a.css''
   \<and> addResource (registerAll (newEpub ''u'') [(''a.css'', ''one'')]) ''a.css'' ''three''
     = registerAll (newEpub ''u'') [(''a.css'', ''one'')]
   \<and> get (resources (registerAll (registerAll (newEpub ''u'') [(''a.css'', ''one'')])
         [(''a.css'', ''one''), (''b.css'', ''two''), (''a.css'', ''three'')])) ''a.css''
     = Some ''one''"
proof -
  let ?st = "registerAll (newEpub ''u'') [(''a.css'', ''one'')]"
  let ?regs = "[(''a.css'', ''one''), (''b.css'', ''two''), (''a.css'', ''three'')]"
  have h: "has (resources ?st) ''a.css''"
    by (simp add: addResource_def newEpub_def has_def mapSet_def)
  have g: "get (resources ?st) ''a.css'' = Some ''one''"
    by (simp add: addResource_def newEpub_def has_def mapSet_def get_def)
  have k: "keys (resources (registerAll (newEpub ''u'') ?regs)) = [''a.css'', ''b.css'']"
    by (simp add: addResource_def newEpub_def has_def mapSet_def keys_def)
  from addResource_first_write_wins [of "''u''" ?regs "''a.css''" ?st "''three''" "''one''"]
  show ?thesis using h g k by simp
qed

section \<open>The extension of an image's file name\<close>

text \<open>
  C5, as amended. The extension is the lower-cased table entry of the MIME type when it
  has one; otherwise the lower-cased subtype, the text after the last slash of the MIME
  type, when that is not empty; otherwise the lower-cased text after the last dot of the
  URL cut at its first \<open>#\<close> or \<open>?\<close>, when that is not empty; otherwise \<open>bin\<close>. An
  image is stored exactly when its fetch resolves with \<open>ok\<close> and its body can be read, and
  then under \<open>images/img\<close>, the counter, a dot and that extension, for the MIME type
  that is the \<open>Content-Type\<close> header up to its first semicolon, or
  \<open>application/octet-stream\<close> when the header is absent or empty.
\<close>

theorem getExtension_order:
  "getExtension mimeType url =
     toLowerCase
       (case get MIME_MAP mimeType of
          Some ext \<Rightarrow> ext
        | None \<Rightarrow>
            (let subtype = rev (takeWhile (\<lambda>c. c \<noteq> CHR ''/'') (rev mimeType));
                 fromUrl = rev (takeWhile (\<lambda>c. c \<noteq> CHR ''.'')
                             (rev (takeWhile (\<lambda>c. c \<noteq> CHR ''#'' \<and> c \<noteq> CHR ''?'') url)))
             in if subtype \<noteq> [] then subtype
                else if fromUrl \<noteq> [] then fromUrl
                else ''bin''))
   \<and> finishImage e n url =
       (case fetch e url of
          None \<Rightarrow> Removed
        | Some response \<Rightarrow>
            if r_ok response then
              (case r_body response of
                 None \<Rightarrow> Removed
               | Some d \<Rightarrow>
                   Stored url
                     (''images/img'' @ string_of_nat n @ ''.''
                      @ getExtension
                          (takeWhile (\<lambda>c. c \<noteq> CHR '';'')
                             (case r_contentType response of
                                None \<Rightarrow> ''application/octet-stream''
                              | Some h \<Rightarrow> if h \<noteq> [] then h else ''application/octet-stream''))
                          url)
                     d)
            else Removed)"
proof -
  have a: "getExtension mimeType url =
     toLowerCase
       (case get MIME_MAP mimeType of
          Some ext \<Rightarrow> ext
        | None \<Rightarrow>
            (let subtype = rev (takeWhile (\<lambda>c. c \<noteq> CHR ''/'') (rev mimeType));
                 fromUrl = rev (takeWhile (\<lambda>c. c \<noteq> CHR ''.'')
                             (rev (takeWhile (\<lambda>c. c \<noteq> CHR ''#'' \<and> c \<noteq> CHR ''?'') url)))
             in if subtype \<noteq> [] then subtype
                else if fromUrl \<noteq> [] then fromUrl
                else ''bin''))"
  proof (cases "get MIME_MAP mimeType")
    case None
    then show ?thesis
      by (simp add: getExtension_def pop_splitOn hd_splitOn orElse_def Let_def)
  next
    case (Some ext)
    then have "ext \<noteq> []" by (rule MIME_MAP_nonempty)
    with Some show ?thesis
      by (simp add: getExtension_def orElse_def Let_def)
  qed
  have b: "finishImage e n url =
       (case fetch e url of
          None \<Rightarrow> Removed
        | Some response \<Rightarrow>
            if r_ok response then
              (case r_body response of
                 None \<Rightarrow> Removed
               | Some d \<Rightarrow>
                   Stored url
                     (''images/img'' @ string_of_nat n @ ''.''
                      @ getExtension
                          (takeWhile (\<lambda>c. c \<noteq> CHR '';'')
                             (case r_contentType response of
                                None \<Rightarrow> ''application/octet-stream''
                              | Some h \<Rightarrow> if h \<noteq> [] then h else ''application/octet-stream''))
                          url)
                     d)
            else Removed)"
    by (simp add: finishImage_def hd_splitOn orElse_def Let_def split: option.splits)
  from a b show ?thesis by (rule conjI)
qed

text \<open>
  C5 as stated fails: for a content type without a table entry the subtype comes before
  the URL. A \<open>image/bmp\<close> response for \<open>http://a/pic.jpg\<close> gets \<open>bmp\<close>, where the wording
  gives \<open>jpg\<close>.
\<close>

theorem getExtension_counterexample:
  "getExtension ''image/bmp'' ''http://a/pic.jpg'' = ''bmp''
   \<and> specExtension ''image/bmp'' ''http://a/pic.jpg'' = ''jpg''"
  by (simp add: getExtension_def specExtension_def MIME_MAP_def get_def pop_def orElse_def
        toLowerCase_def lowerChar_def lowerTable_def)

section \<open>The stylesheet links of a chapter\<close>

lemma foldl_pushCss:
  "foldl (pushCss cs) acc L = acc @ List.map_filter (findCss cs) L"
  by (induction L arbitrary: acc) (simp_all add: pushCss_def List.map_filter_simps split: option.splits)

lemma find_Some_ex: "find P xs = Some x \<Longrightarrow> \<exists>y\<in>set xs. P y"
  by (induction xs) (auto split: if_splits)

lemma find_the: "\<exists>y\<in>set xs. P y \<Longrightarrow> find P xs = Some (the (find P xs))"
  by (induction xs) auto

lemma map_filter_findCss:
  "List.map_filter (findCss cs) L =
     map (\<lambda>i. the (find (\<lambda>c. s_idx c = i) cs)) (filter (\<lambda>i. \<exists>c \<in> set cs. s_idx c = i) L)"
proof (induction L)
  case Nil
  then show ?case by (simp add: List.map_filter_simps)
next
  case (Cons i L)
  show ?case
  proof (cases "find (\<lambda>c. s_idx c = i) cs")
    case None
    then have "\<not> (\<exists>c \<in> set cs. s_idx c = i)" by (simp add: find_None_iff)
    with None Cons show ?thesis by (simp add: List.map_filter_simps findCss_def)
  next
    case (Some x)
    then have "\<exists>c \<in> set cs. s_idx c = i" by (rule find_Some_ex)
    with Some Cons show ?thesis by (simp add: List.map_filter_simps findCss_def)
  qed
qed

lemma cssLinks_spec: "cssLinks cs g L = specLinks cs g L"
proof (cases "find (\<lambda>c. s_idx c = 0) cs")
  case None
  then have "\<not> (\<exists>c \<in> set cs. s_idx c = 0)" by (simp add: find_None_iff)
  with None show ?thesis
    by (simp add: cssLinks_def specLinks_def foldl_pushCss map_filter_findCss pushCss_def findCss_def)
next
  case (Some x)
  then have "\<exists>c \<in> set cs. s_idx c = 0" by (rule find_Some_ex)
  with Some show ?thesis
    by (simp add: cssLinks_def specLinks_def foldl_pushCss map_filter_findCss pushCss_def findCss_def)
qed

lemma cssList_registerResources: "cssList (registerResources st rs) = cssList st"
  by (induction st rs rule: registerResources.induct) (simp_all add: addResource_def)

lemma cssList_processImages: "cssList (snd (snd (processImages e st c))) = cssList st"
  by (simp add: processImages_def processImagesDoc_def split_def Let_def)

lemma resources_addChapter:
  "k < length (volumes st) \<Longrightarrow>
   resources (snd (addChapter e st k idx content title contentType insertTitle useGlobalCSS cssIdxs))
   = resources (addResource
       (registerResources
          (snd (snd (processImages e st (wrapContent (extractContent content) title contentType insertTitle))))
          (fst (snd (processImages e st (wrapContent (extractContent content) title contentType insertTitle)))))
       (''chapter_'' @ string_of_int (v_idx (volumes st ! k)) @ ''_'' @ string_of_int idx @ ''.xhtml'')
       (encode (buildXhtml st
          (fst (processImages e st (wrapContent (extractContent content) title contentType insertTitle)))
          title useGlobalCSS cssIdxs)))"
  by (simp add: addChapter_def Let_def split_def buildXhtml_def cssList_registerResources
      cssList_processImages)

text \<open>
  C7. The links that \<open>buildXhtml\<close> collects are those of the specification's wording:
  with \<open>useGlobalCSS\<close>, the first stylesheet of index 0 when there is one, then for each
  index of the list, in the list's order, the first stylesheet of that index when there
  is one, an index without a stylesheet adding nothing. The head of the chapter's XHTML
  holds one \<open>link\<close> element for each, in that order, between the title and \<open></head>\<close>.
  An \<open>addChapter\<close> call on a volume of the document registers, under the chapter's file
  name, this XHTML for the stylesheets the document has at the call and the content
  that \<open>processImages\<close> returns. With stylesheets of indices 0 and 2, added in either
  order, and the list \<open>[2]\<close>, the links are those of stylesheet 0 and of stylesheet 2,
  in this order.
\<close>

theorem buildXhtml_links:
  "cssLinks (cssList st) useGlobalCSS L = specLinks (cssList st) useGlobalCSS L
   \<and> buildXhtml st content1 title useGlobalCSS L =
       xhtmlHead @ escapeXml title @ ''</title>\<newline>''
       @ join ''\<newline>  '' (map linkTag (specLinks (cssList st) useGlobalCSS L))
       @ ''\<newline></head>\<newline><body>\<newline>'' @ extractContent content1
       @ ''\<newline></body>\<newline></html>''
   \<and> (k < length (volumes st) \<longrightarrow>
       resources (snd (addChapter e st k idx content title contentType insertTitle useGlobalCSS L))
       = resources (addResource
           (registerResources
              (snd (snd (processImages e st (wrapContent (extractContent content) title contentType insertTitle))))
              (fst (snd (processImages e st (wrapContent (extractContent content) title contentType insertTitle)))))
           (''chapter_'' @ string_of_int (v_idx (volumes st ! k)) @ ''_'' @ string_of_int idx @ ''.xhtml'')
           (encode (xhtmlHead @ escapeXml title @ ''</title>\<newline>''
              @ join ''\<newline>  '' (map linkTag (specLinks (cssList st) useGlobalCSS L))
              @ ''\<newline></head>\<newline><body>\<newline>''
              @ extractContent (fst (processImages e st
                    (wrapContent (extractContent content) title contentType insertTitle)))
              @ ''\<newline></body>\<newline></html>''))))
   \<and> cssLinks [\<lparr>s_idx = 0, s_filename = f0, s_mapname = m0\<rparr>, \<lparr>s_idx = 2, s_filename = f2, s_mapname = m2\<rparr>]
         True [2]
       = [\<lparr>s_idx = 0, s_filename = f0, s_mapname = m0\<rparr>, \<lparr>s_idx = 2, s_filename = f2, s_mapname = m2\<rparr>]
   \<and> cssLinks [\<lparr>s_idx = 2, s_filename = f2, s_mapname = m2\<rparr>, \<lparr>s_idx = 0, s_filename = f0, s_mapname = m0\<rparr>]
         True [2]
       = [\<lparr>s_idx = 0, s_filename = f0, s_mapname = m0\<rparr>, \<lparr>s_idx = 2, s_filename = f2, s_mapname = m2\<rparr>]"
proof -
  have b: "\<And>c. buildXhtml st c title useGlobalCSS L =
       xhtmlHead @ escapeXml title @ ''</title>\<newline>''
       @ join ''\<newline>  '' (map linkTag (specLinks (cssList st) useGlobalCSS L))
       @ ''\<newline></head>\<newline><body>\<newline>'' @ extractContent c
       @ ''\<newline></body>\<newline></html>''"
    by (simp add: buildXhtml_def cssLinks_spec)
  have 1: "cssLinks (cssList st) useGlobalCSS L = specLinks (cssList st) useGlobalCSS L"
    by (rule cssLinks_spec)
  have 3: "k < length (volumes st) \<longrightarrow>
       resources (snd (addChapter e st k idx content title contentType insertTitle useGlobalCSS L))
       = resources (addResource
           (registerResources
              (snd (snd (processImages e st (wrapContent (extractContent content) title contentType insertTitle))))
              (fst (snd (processImages e st (wrapContent (extractContent content) title contentType insertTitle)))))
           (''chapter_'' @ string_of_int (v_idx (volumes st ! k)) @ ''_'' @ string_of_int idx @ ''.xhtml'')
           (encode (xhtmlHead @ escapeXml title @ ''</title>\<newline>''
              @ join ''\<newline>  '' (map linkTag (specLinks (cssList st) useGlobalCSS L))
              @ ''\<newline></head>\<newline><body>\<newline>''
              @ extractContent (fst (processImages e st
                    (wrapContent (extractContent content) title contentType insertTitle)))
              @ ''\<newline></body>\<newline></html>'')))"
    using resources_addChapter [of k st e idx content title contentType insertTitle useGlobalCSS L]
    unfolding b by blast
  have 4: "cssLinks [\<lparr>s_idx = 0, s_filename = f0, s_mapname = m0\<rparr>, \<lparr>s_idx = 2, s_filename = f2, s_mapname = m2\<rparr>]
         True [2]
       = [\<lparr>s_idx = 0, s_filename = f0, s_mapname = m0\<rparr>, \<lparr>s_idx = 2, s_filename = f2, s_mapname = m2\<rparr>]"
    by (simp add: cssLinks_spec specLinks_def)
  have 5: "cssLinks [\<lparr>s_idx = 2, s_filename = f2, s_mapname = m2\<rparr>, \<lparr>s_idx = 0, s_filename = f0, s_mapname = m0\<rparr>]
         True [2]
       = [\<lparr>s_idx = 0, s_filename = f0, s_mapname = m0\<rparr>, \<lparr>s_idx = 2, s_filename = f2, s_mapname = m2\<rparr>]"
    by (simp add: cssLinks_spec specLinks_def)
  show ?thesis by (intro conjI) (fact 1, rule b, fact 3, fact 4, fact 5)
qed

text \<open>
  A document with a stylesheet of index 2 added before the one of index 0, and a chapter
  that asks for the global stylesheet and for the indices 2 and 5.
\<close>

theorem buildXhtml_links_witness:
  \<open>get (resources (snd (addChapter sampleEnv
          (run sampleEnv (newEpub ''u'')
             [AddCSS 2 ''b{}'' ''two.css'' ''two'', AddCSS 0 ''a{}'' [] ''zero'', AddVolume ''V'' 1])
          0 1 ''<p>x</p>'' ''T'' ''html'' False True [2, 5])))
       ''chapter_1_1.xhtml''
     = Some (xhtmlHead @ ''T</title>\<newline><link href="Styles/style0.css" rel="stylesheet"/>\<newline>  <link href="two.css" rel="stylesheet"/>\<newline></head>\<newline><body>\<newline><p>x</p>\<newline></body>\<newline></html>'')\<close>
proof -
  let ?st = "run sampleEnv (newEpub ''u'')
             [AddCSS 2 ''b{}'' ''two.css'' ''two'', AddCSS 0 ''a{}'' [] ''zero'', AddVolume ''V'' 1]"
  let ?p = "processImages sampleEnv ?st (wrapContent (extractContent ''<p>x</p>'') ''T'' ''html'' False)"
  let ?new = "resources (addResource (registerResources (snd (snd ?p)) (fst (snd ?p)))
           (''chapter_'' @ string_of_int (v_idx (volumes ?st ! 0)) @ ''_'' @ string_of_int 1 @ ''.xhtml'')
           (encode (xhtmlHead @ escapeXml ''T'' @ ''</title>\<newline>''
              @ join ''\<newline>  '' (map linkTag (specLinks (cssList ?st) True [2, 5]))
              @ ''\<newline></head>\<newline><body>\<newline>'' @ extractContent (fst ?p)
              @ ''\<newline></body>\<newline></html>'')))"
  have k: "0 < length (volumes ?st)" by code_simp
  note t = buildXhtml_links [where st = ?st and k = 0 and e = sampleEnv and idx = 1
      and content = "''<p>x</p>''" and title = "''T''" and contentType = "''html''"
      and insertTitle = False and useGlobalCSS = True and L = "[2, 5]"]
  from t have "0 < length (volumes ?st) \<longrightarrow>
      resources (snd (addChapter sampleEnv ?st 0 1 ''<p>x</p>'' ''T'' ''html'' False True [2, 5])) = ?new"
    by (rule conjunct2 [THEN conjunct2, THEN conjunct1])
  then have eq: "resources (snd (addChapter sampleEnv ?st 0 1 ''<p>x</p>'' ''T'' ''html'' False True [2, 5])) = ?new"
    using k by (rule mp)
  have \<open>get ?new ''chapter_1_1.xhtml''
     = Some (xhtmlHead @ ''T</title>\<newline><link href="Styles/style0.css" rel="stylesheet"/>\<newline>  <link href="two.css" rel="stylesheet"/>\<newline></head>\<newline><body>\<newline><p>x</p>\<newline></body>\<newline></html>'')\<close>
    by code_simp
  then show ?thesis by (simp only: eq)
qed

section \<open>Escaping of titles\<close>

lemma string_of_nat_digit: "n < 10 \<Longrightarrow> string_of_nat n = [digit n]"
  by simp

declare string_of_nat.simps [simp del]

lemma escapeXml_no_reserved:
  "set (escapeXml s) \<inter> {CHR ''<'', CHR ''>'', CHR 0x27, CHR 0x22} = {}"
  by (induction s) (auto simp: escapeXml_def escapeChar_def)

text \<open>
  C4 fails on the code. \<open>escapeXml\<close> replaces the five reserved characters, and
  \<open>buildXhtml\<close> applies it to the title of a chapter's \<open>title\<close> element; the other
  templates interpolate the title as it is. For the volume title \<open>A&B<C\<close> the volume's
  container document, its navigation point in the navigation map and its entry in the
  navigation document hold the raw title, and so does the heading that \<open>wrapContent\<close>
  puts before a chapter's content.
\<close>

theorem titles_not_escaped:
  \<open>escapeXml ''A&B<C'' = ''A&amp;B&lt;C''
   \<and> set (escapeXml t) \<inter> {CHR ''<'', CHR ''>'', CHR 0x27, CHR ''"''} = {}
   \<and> get (resources (snd (addVolume (newEpub ''u'') ''A&B<C'' 1))) ''volume_1.xhtml''
       = Some (''<?xml version="1.0" encoding="UTF-8"?>\<newline><!DOCTYPE html>\<newline><html xmlns="http://www.w3.org/1999/xhtml">\<newline><head>\<newline><title>A&B<C</title>\<newline></head>\<newline><body>\<newline><h1>A&B<C</h1>\<newline></body>\<newline></html>'')
   \<and> map renderVolumePoint (ncxPoints (snd (addVolume (newEpub ''u'') ''A&B<C'' 1)))
       = [''\<newline><navPoint id="navpoint-1" playOrder="1">\<newline>  <navLabel><text>A&B<C</text></navLabel>\<newline>  <content src="volume_1.xhtml"/></navPoint>'']
   \<and> map renderNavItem (navItems (snd (addVolume (newEpub ''u'') ''A&B<C'' 1)))
       = [''\<newline><li>\<newline>  <a href="">A&B<C</a>\<newline>  <ol>\<newline>    \<newline>  </ol>\<newline></li>\<newline>'']
   \<and> wrapContent ''x'' ''A&B<C'' ''html'' True = ''<h1>A&B<C</h1>x''\<close>
proof -
  have 1: "escapeXml ''A&B<C'' = ''A&amp;B&lt;C''"
    by (simp add: escapeXml_def escapeChar_def)
  have v: "snd (addVolume (newEpub ''u'') ''A&B<C'' 1) =
      (newEpub ''u'')\<lparr>resources := [(''volume_1.xhtml'', volumeContent ''A&B<C'')],
         volumes := [\<lparr> v_title = ''A&B<C'', v_idx = 1, chapters = [], containerFile = ''volume_1.xhtml'' \<rparr>]\<rparr>"
    by (simp add: addVolume_def newVolume_def addResource_def newEpub_def has_def mapSet_def
        string_of_int_def string_of_nat_digit digit_def encode_def Let_def)
  show ?thesis
    apply (intro conjI)
         apply (rule 1)
        apply (rule escapeXml_no_reserved)
       apply (simp add: v get_def volumeContent_def)
      apply (simp add: v ncxPoints_def sortVolumes_def renderVolumePoint_def firstFilename_def
        orElse_def chapterPoints_def sortChapters_def string_of_nat_digit digit_def)
     apply (simp add: v navItems_def sortVolumes_def renderNavItem_def firstFilename_def sortChapters_def)
    apply (simp add: wrapContent_def)
    done
qed

section \<open>The archive\<close>

lemma resources_generateOpf: "resources (snd (generateOpf e st)) = resources (opfCover st)"
  by (simp add: generateOpf_def)

lemma resources_generateNcx: "resources (snd (generateNcx st)) = resources st"
  by (simp add: generateNcx_def)

lemma resources_generateNav: "resources (snd (generateNav st)) = resources st"
  by (simp add: generateNav_def)

lemma entries_save:
  "entries (fst (save e st)) =
     [\<lparr> z_folder = [], z_name = ''mimetype'', z_data = ''application/epub+zip'',
        z_compression = Some STORE \<rparr>,
      \<lparr> z_folder = ''META-INF'', z_name = ''container.xml'', z_data = containerXml,
        z_compression = None \<rparr>,
      \<lparr> z_folder = ''OEBPS'', z_name = ''content.opf'', z_data = fst (generateOpf e st),
        z_compression = None \<rparr>,
      \<lparr> z_folder = ''OEBPS'', z_name = ''toc.ncx'',
        z_data = fst (generateNcx (snd (generateOpf e st))), z_compression = None \<rparr>]
     @ map (\<lambda>(path, content). \<lparr> z_folder = ''OEBPS'', z_name = path, z_data = content,
                                   z_compression = None \<rparr>) (resources (opfCover st))
     @ [\<lparr> z_folder = ''OEBPS'', z_name = ''nav.xhtml'',
          z_data = fst (generateNav (snd (generateNcx (snd (generateOpf e st))))),
          z_compression = None \<rparr>]"
  by (simp add: save_def Let_def split_def resources_generateNcx resources_generateOpf)

lemma state_save:
  "snd (save e st) = snd (generateNav (snd (generateNcx (snd (generateOpf e st)))))"
  by (simp add: save_def Let_def split_def)

lemma resources_save: "resources (snd (save e st)) = resources (opfCover st)"
  by (simp add: state_save resources_generateNav resources_generateNcx resources_generateOpf)

lemma a_compression_save: "a_compression (fst (save e st)) = DEFLATE"
  by (simp add: save_def Let_def split_def)

text \<open>
  C9. The first \<open>file\<close> call of \<open>save\<close> is for \<open>mimetype\<close> at the root of the archive,
  with the fixed MIME-type string and the option \<open>STORE\<close>, so the library stores it
  uncompressed. Every other call is made in a folder and gives no compression option,
  so the library compresses its entry with the \<open>DEFLATE\<close> of \<open>generateAsync\<close>: the
  container locator, the package document, the navigation map, one entry for each path
  of the resource table in the table's order, and the navigation document.
\<close>

theorem save_mimetype_stored:
  "hd (entries (fst (save e st))) =
     \<lparr> z_folder = [], z_name = ''mimetype'', z_data = ''application/epub+zip'',
       z_compression = Some STORE \<rparr>
   \<and> methodOf (fst (save e st)) (hd (entries (fst (save e st)))) = STORE
   \<and> (\<forall>ent \<in> set (tl (entries (fst (save e st)))).
         z_compression ent = None \<and> methodOf (fst (save e st)) ent = DEFLATE \<and> z_folder ent \<noteq> [])
   \<and> map (\<lambda>ent. (z_folder ent, z_name ent)) (tl (entries (fst (save e st)))) =
       [(''META-INF'', ''container.xml''), (''OEBPS'', ''content.opf''), (''OEBPS'', ''toc.ncx'')]
       @ map (\<lambda>path. (''OEBPS'', path)) (keys (resources (snd (save e st))))
       @ [(''OEBPS'', ''nav.xhtml'')]"
  apply (intro conjI)
      apply (simp add: entries_save)
     apply (simp add: entries_save methodOf_def)
    apply (auto simp: entries_save methodOf_def a_compression_save)[1]
  apply (simp add: entries_save resources_save keys_def split_def comp_def)
  done

theorem save_mimetype_stored_witness:
  "z_name (hd (entries (fst (save sampleEnv (snd (addVolume (newEpub ''u'') ''V'' 1)))))) = ''mimetype''
   \<and> methodOf (fst (save sampleEnv (snd (addVolume (newEpub ''u'') ''V'' 1))))
         (hd (entries (fst (save sampleEnv (snd (addVolume (newEpub ''u'') ''V'' 1)))))) = STORE
   \<and> map (\<lambda>ent. (z_folder ent, z_name ent, methodOf (fst (save sampleEnv (snd (addVolume (newEpub ''u'') ''V'' 1)))) ent))
         (tl (entries (fst (save sampleEnv (snd (addVolume (newEpub ''u'') ''V'' 1))))))
       = [(''META-INF'', ''container.xml'', DEFLATE), (''OEBPS'', ''content.opf'', DEFLATE),
          (''OEBPS'', ''toc.ncx'', DEFLATE), (''OEBPS'', ''volume_1.xhtml'', DEFLATE),
          (''OEBPS'', ''nav.xhtml'', DEFLATE)]"
proof -
  let ?st = "snd (addVolume (newEpub ''u'') ''V'' 1)"
  let ?a = "fst (save sampleEnv ?st)"
  have k: "keys (resources (snd (save sampleEnv ?st))) = [''volume_1.xhtml'']"
    by (simp add: resources_save opfCover_def addVolume_def newVolume_def addResource_def
        newEpub_def has_def mapSet_def keys_def string_of_int_def string_of_nat_digit digit_def Let_def)
  have m: "map (\<lambda>ent. methodOf ?a ent) (tl (entries ?a)) = map (\<lambda>ent. DEFLATE) (tl (entries ?a))"
    using save_mimetype_stored [of sampleEnv ?st] by (intro map_cong) auto
  have n: "map (\<lambda>ent. (z_folder ent, z_name ent)) (tl (entries ?a)) =
       [(''META-INF'', ''container.xml''), (''OEBPS'', ''content.opf''), (''OEBPS'', ''toc.ncx''),
        (''OEBPS'', ''volume_1.xhtml''), (''OEBPS'', ''nav.xhtml'')]"
    using save_mimetype_stored [of sampleEnv ?st] k by simp
  have z: "map (\<lambda>ent. (z_folder ent, z_name ent, methodOf ?a ent)) (tl (entries ?a))
      = map (\<lambda>(p, c). (fst p, snd p, c))
          (zip (map (\<lambda>ent. (z_folder ent, z_name ent)) (tl (entries ?a)))
               (map (\<lambda>ent. methodOf ?a ent) (tl (entries ?a))))"
    by (simp add: zip_map_map map_idI comp_def) (simp add: zip_same_conv_map)
  have len: "length (tl (entries ?a)) = 5"
    using arg_cong [OF n, of length] by simp
  have "map (\<lambda>ent. (z_folder ent, z_name ent, methodOf ?a ent)) (tl (entries ?a))
       = [(''META-INF'', ''container.xml'', DEFLATE), (''OEBPS'', ''content.opf'', DEFLATE),
          (''OEBPS'', ''toc.ncx'', DEFLATE), (''OEBPS'', ''volume_1.xhtml'', DEFLATE),
          (''OEBPS'', ''nav.xhtml'', DEFLATE)]"
    unfolding z n m using len by (simp add: map_replicate_const numeral_eq_Suc)
  then show ?thesis
    using save_mimetype_stored [of sampleEnv ?st] by (simp add: methodOf_def)
qed

section \<open>The order of volumes and chapters\<close>

lemma snd_ncxVolumes:
  "snd (ncxVolumes p vs) = map (\<lambda>v. v\<lparr>chapters := sortChapters (chapters v)\<rparr>) vs"
  by (induction vs arbitrary: p) (simp_all add: Let_def split_def)

lemma snd_spineVolumes:
  "snd (spineVolumes vs) = map (\<lambda>v. v\<lparr>chapters := sortChapters (chapters v)\<rparr>) vs"
  by (induction vs) (simp_all add: Let_def split_def)

lemma snd_navVolumes:
  "snd (navVolumes vs) = map (\<lambda>v. v\<lparr>chapters := sortChapters (chapters v)\<rparr>) vs"
  by (induction vs) (simp_all add: Let_def split_def)

lemma map_zip_snd:
  "length ns = length xs \<Longrightarrow> map (\<lambda>(i, x). f x) (zip ns xs) = map f xs"
  by (induction ns xs rule: list_induct2) simp_all

lemma map_zip_upt: "map (\<lambda>(i, x). f x) (zip [0..<length xs] xs) = map f xs"
  by (rule map_zip_snd) simp

lemma chapterPoints_listing:
  "map (\<lambda>cp. (np_label cp, np_src cp)) (chapterPoints p cs) = map (\<lambda>c. (c_title c, c_filename c)) cs"
proof -
  have "map (\<lambda>cp. (np_label cp, np_src cp)) (chapterPoints p cs)
      = map (\<lambda>(i, c). (c_title c, c_filename c)) (zip [0..<length cs] cs)"
    by (simp add: chapterPoints_def split_def comp_def)
  then show ?thesis by (simp add: map_zip_upt)
qed

lemma fst_ncxVolumes:
  "map (\<lambda>p. (np_label (fst p), map (\<lambda>cp. (np_label cp, np_src cp)) (snd p))) (fst (ncxVolumes n vs))
     = map (\<lambda>v. (v_title v, map (\<lambda>c. (c_title c, c_filename c)) (sortChapters (chapters v)))) vs"
  by (induction vs arbitrary: n) (simp_all add: Let_def split_def chapterPoints_listing)

lemma fst_spineVolumes:
  "fst (spineVolumes vs)
     = concat (map (\<lambda>v. map (\<lambda>c. sanitize (c_filename c)) (sortChapters (chapters v))) vs)"
  by (induction vs) (simp_all add: Let_def split_def)

lemma fst_navVolumes:
  "map (\<lambda>it. (n_title it, n_chapters it)) (fst (navVolumes vs))
     = map (\<lambda>v. (v_title v, map (\<lambda>c. (c_filename c, c_title c)) (sortChapters (chapters v)))) vs"
  by (induction vs) (simp_all add: Let_def split_def)

lemma filter_key_distinct:
  "distinct (map f xs) \<Longrightarrow> k \<in> set xs \<Longrightarrow> filter (\<lambda>y. f k = f y) xs = [k]"
proof (induction xs)
  case Nil
  then show ?case by simp
next
  case (Cons a xs)
  show ?case
  proof (cases "k = a")
    case True
    with Cons.prems have "\<forall>y\<in>set xs. f a \<noteq> f y" by auto
    then have "filter (\<lambda>y. f a = f y) xs = []" by (simp add: filter_empty_conv)
    with True show ?thesis by simp
  next
    case False
    with Cons.prems have kx: "k \<in> set xs" by simp
    from Cons.prems have na: "f a \<notin> f ` set xs" and dx: "distinct (map f xs)" by simp_all
    from kx na have "f k \<noteq> f a" by (metis imageI)
    with Cons.IH [OF dx kx] show ?thesis by simp
  qed
qed

lemma sort_key_perm:
  assumes m: "mset ys = mset xs" and d: "distinct (map f xs)"
  shows "sort_key f ys = sort_key f xs"
proof (rule properties_for_sort_key)
  show "mset (sort_key f xs) = mset ys" using m by simp
  show "sorted (map f (sort_key f xs))" by simp
  fix k assume "k \<in> set (sort_key f xs)"
  then have kx: "k \<in> set xs" by simp
  then have ky: "k \<in> set ys" using m by (metis mset_eq_setD)
  have "mset (map f ys) = mset (map f xs)" using m by (metis mset_map)
  then have dy: "distinct (map f ys)" using d by (metis mset_eq_imp_distinct_iff)
  have "filter (\<lambda>x. f x = f k) (sort_key f xs) = filter (\<lambda>x. f x = f k) xs"
    by (rule sort_key_stable)
  then have "filter (\<lambda>x. f k = f x) (sort_key f xs) = filter (\<lambda>x. f k = f x) xs"
    by (simp add: eq_commute)
  then show "filter (\<lambda>x. f k = f x) (sort_key f xs) = filter (\<lambda>x. f k = f x) ys"
    using filter_key_distinct [OF d kx] filter_key_distinct [OF dy ky] by simp
qed

lemma sortCatalog_idem: "sortCatalog (sortCatalog vs) = sortCatalog vs"
proof -
  have s: "sorted (map v_idx (map (\<lambda>v. v\<lparr>chapters := sortChapters (chapters v)\<rparr>) (sort_key v_idx vs)))"
    by (simp add: comp_def)
  have "sort_key v_idx (map (\<lambda>v. v\<lparr>chapters := sortChapters (chapters v)\<rparr>) (sort_key v_idx vs))
      = map (\<lambda>v. v\<lparr>chapters := sortChapters (chapters v)\<rparr>) (sort_key v_idx vs)"
    using s by (rule sort_key_id_if_sorted)
  moreover have "sortChapters (sortChapters cs) = sortChapters cs" for cs
    unfolding sortChapters_def by (rule sort_key_id_if_sorted) simp
  ultimately show ?thesis
    by (simp add: sortCatalog_def sortVolumes_def comp_def)
qed

lemma sorted_sortCatalog: "sorted (map v_idx (sortCatalog vs))"
  by (simp add: sortCatalog_def sortVolumes_def comp_def)

lemma chapters_sortCatalog: "v \<in> set (sortCatalog vs) \<Longrightarrow> sorted (map c_idx (chapters v))"
  by (auto simp: sortCatalog_def sortChapters_def)

lemma mset_sortCatalog:
  "mset (map (\<lambda>v. (v_title v, v_idx v, containerFile v, mset (chapters v))) (sortCatalog vs))
     = mset (map (\<lambda>v. (v_title v, v_idx v, containerFile v, mset (chapters v))) vs)"
proof -
  have "map (\<lambda>v. (v_title v, v_idx v, containerFile v, mset (chapters v))) (sortCatalog vs)
      = map (\<lambda>v. (v_title v, v_idx v, containerFile v, mset (chapters v))) (sort_key v_idx vs)"
    by (simp add: sortCatalog_def sortVolumes_def sortChapters_def comp_def)
  then show ?thesis by simp
qed

lemma map_zip_fst:
  "length ns = length xs \<Longrightarrow> map (\<lambda>(i, x). f i) (zip ns xs) = map f ns"
  by (induction ns xs rule: list_induct2) simp_all

lemma orders_chapterPoints: "map np_order (chapterPoints p cs) = [p..<p + length cs]"
proof -
  have "map np_order (chapterPoints p cs) = map (\<lambda>(i, c). p + i) (zip [0..<length cs] cs)"
    by (simp add: chapterPoints_def split_def comp_def)
  also have "\<dots> = map (\<lambda>i. p + i) [0..<length cs]"
    by (rule map_zip_fst) simp
  also have "\<dots> = [p..<p + length cs]"
    using map_add_upt [of p "length cs"] by (simp add: add.commute)
  finally show ?thesis .
qed

lemma length_chapterPoints: "length (chapterPoints p cs) = length cs"
  by (simp add: chapterPoints_def)

lemma upt_Cons_append:
  "n # [n + 1..<n + 1 + a] @ [n + 1 + a..<n + 1 + a + b] = [n..<n + (1 + a + b)]"
proof -
  have "[n + 1..<n + 1 + a] @ [n + 1 + a..<n + 1 + a + b] = [n + 1..<n + 1 + a + b]"
    using upt_add_eq_append [of "n + 1" "n + 1 + a" b] by simp
  moreover have "n # [n + 1..<n + 1 + a + b] = [n..<n + (1 + a + b)]"
    using upt_conv_Cons [of n "n + (1 + a + b)"] by (simp add: add.assoc)
  ultimately show ?thesis by simp
qed

lemma orders_ncxVolumes:
  "map np_order (concat (map (\<lambda>p. fst p # snd p) (fst (ncxVolumes n vs))))
     = [n..<n + length (concat (map (\<lambda>p. fst p # snd p) (fst (ncxVolumes n vs))))]"
proof (induction vs arbitrary: n)
  case Nil
  then show ?case by simp
next
  case (Cons v vs)
  let ?cs = "sortChapters (chapters v)"
  let ?rest = "concat (map (\<lambda>p. fst p # snd p) (fst (ncxVolumes (n + 1 + length ?cs) vs)))"
  have u: "concat (map (\<lambda>p. fst p # snd p) (fst (ncxVolumes n (v # vs))))
      = \<lparr> np_order = n, np_label = v_title v,
           np_src = (case firstFilename (chapters v) of
                          None \<Rightarrow> orElse (containerFile v) ''undefined''
                        | Some f \<Rightarrow> orElse (containerFile v) f) \<rparr>
        # chapterPoints (n + 1) ?cs @ ?rest"
    by (simp add: Let_def split_def)
  have "map np_order (concat (map (\<lambda>p. fst p # snd p) (fst (ncxVolumes n (v # vs)))))
      = n # [n + 1..<n + 1 + length ?cs] @ map np_order ?rest"
    unfolding u by (simp add: orders_chapterPoints)
  also have "\<dots> = n # [n + 1..<n + 1 + length ?cs]
       @ [n + 1 + length ?cs..<n + 1 + length ?cs + length ?rest]"
    by (simp only: Cons.IH)
  also have "\<dots> = [n..<n + (1 + length ?cs + length ?rest)]"
    by (rule upt_Cons_append)
  finally show ?case
    unfolding u by (simp add: length_chapterPoints)
qed

lemma listing_ncxVolumes:
  "map (\<lambda>p. (np_label (fst p), np_src (fst p), map (\<lambda>cp. (np_label cp, np_src cp)) (snd p)))
       (fst (ncxVolumes n vs))
     = map (\<lambda>v. (v_title v,
                  orElse (containerFile v) (case chapters v of [] \<Rightarrow> ''undefined'' | c # _ \<Rightarrow> c_filename c),
                  map (\<lambda>c. (c_title c, c_filename c)) (sortChapters (chapters v)))) vs"
  by (induction vs arbitrary: n)
     (simp_all add: Let_def split_def chapterPoints_listing firstFilename_def split: list.splits)

lemma listing_navVolumes:
  "fst (navVolumes vs)
     = map (\<lambda>v. \<lparr> n_href = (case chapters v of [] \<Rightarrow> [] | c # _ \<Rightarrow> c_filename c),
                   n_title = v_title v,
                   n_chapters = map (\<lambda>c. (c_filename c, c_title c)) (sortChapters (chapters v)) \<rparr>) vs"
  by (induction vs)
     (simp_all add: Let_def split_def firstFilename_def orElse_def split: list.splits)

lemma sorted_sortVolumes: "sorted (map v_idx (sortVolumes vs))"
  by (simp add: sortVolumes_def)

lemma sorted_sortChapters: "sorted (map c_idx (sortChapters cs))"
  by (simp add: sortChapters_def)

lemma document_generateNcx:
  \<open>fst (generateNcx st) =
     ''<?xml version="1.0" encoding="UTF-8"?>\<newline><!DOCTYPE ncx PUBLIC "-//NISO//DTD ncx 2005-1//EN" "http://www.daisy.org/z3986/2005/ncx-2005-1.dtd">\<newline><ncx xmlns="http://www.daisy.org/z3986/2005/ncx/" version="2005-1">\<newline><head>\<newline><meta name="dtb:uid" content="urn:uuid:''
     @ uuid st
     @ ''"/>\<newline><meta name="dtb:depth" content="2"/>\<newline><meta name="dtb:totalPageCount" content="0"/>\<newline><meta name="dtb:maxPageNumber" content="0"/>\<newline></head>\<newline><docTitle>\<newline><text>''
     @ showInfo (bookname (info st)) ''Untitled''
     @ ''</text>\<newline></docTitle>\<newline><navMap>\<newline>''
     @ join [] (map (\<lambda>p.
          ''\<newline><navPoint id="navpoint-'' @ string_of_nat (np_order (fst p))
          @ ''" playOrder="'' @ string_of_nat (np_order (fst p))
          @ ''">\<newline>  <navLabel><text>'' @ np_label (fst p)
          @ ''</text></navLabel>\<newline>  <content src="'' @ np_src (fst p) @ ''"/>''
          @ join [] (map (\<lambda>cp.
               ''\<newline>    <navPoint id="navpoint-'' @ string_of_nat (np_order cp)
               @ ''" playOrder="'' @ string_of_nat (np_order cp)
               @ ''">\<newline>      <navLabel><text>'' @ np_label cp
               @ ''</text></navLabel>\<newline>      <content src="'' @ np_src cp
               @ ''"/>\<newline>    </navPoint>'') (snd p))
          @ ''</navPoint>'') (ncxPoints st))
     @ ''\<newline></navMap>\<newline></ncx>''\<close>
  by (simp add: generateNcx_def renderVolumePoint_def [abs_def] renderChapterPoint_def [abs_def])

lemma document_generateNav:
  \<open>fst (generateNav st) =
     ''<?xml version="1.0" encoding="UTF-8"?>\<newline><html xmlns="http://www.w3.org/1999/xhtml" xmlns:epub="http://www.idpf.org/2007/ops">\<newline><head>\<newline><title>Table of Contents</title>\<newline></head>\<newline><body>\<newline><nav epub:type="toc">\<newline><h1>Table of Contents</h1>\<newline><ol>\<newline>''
     @ join [] (map (\<lambda>v.
          ''\<newline><li>\<newline>  <a href="'' @ (case chapters v of [] \<Rightarrow> [] | c # _ \<Rightarrow> c_filename c)
          @ ''">'' @ v_title v @ ''</a>\<newline>  <ol>\<newline>    ''
          @ join [] (map (\<lambda>c. ''\<newline>      <li><a href="'' @ c_filename c @ ''">'' @ c_title c
                                  @ ''</a></li>\<newline>    '') (sortChapters (chapters v)))
          @ ''\<newline>  </ol>\<newline></li>\<newline>'') (sortVolumes (volumes st)))
     @ ''\<newline></ol>\<newline></nav>\<newline></body>\<newline></html>''\<close>
  by (simp add: generateNav_def navItems_def listing_navVolumes renderNavItem_def [abs_def]
      renderNavChapter_def [abs_def] comp_def)

lemma document_generateOpf:
  \<open>fst (generateOpf e st) =
     ''<?xml version="1.0" encoding="UTF-8"?>\<newline><package xmlns="http://www.idpf.org/2007/opf" unique-identifier="BookId" version="3.0">\<newline><metadata xmlns:dc="http://purl.org/dc/elements/1.1/">\<newline>''
     @ join ''\<newline>    '' (opfMetadata e st)
     @ ''\<newline></metadata>\<newline><manifest>\<newline>''
     @ join ''\<newline>    '' (map renderItem (opfManifest st))
     @ ''\<newline></manifest>\<newline><spine toc="ncx">\<newline>''
     @ join ''\<newline>    '' (map (\<lambda>idref. ''<itemref idref="'' @ idref @ ''"/>'')
         ((if cover (info st) \<noteq> None then [''cover''] else [])
          @ concat (map (\<lambda>v. map (\<lambda>c. sanitize (c_filename c)) (sortChapters (chapters v)))
                        (sortVolumes (volumes st)))))
     @ ''\<newline></spine>\<newline><guide>\<newline>''
     @ (if cover (info st) \<noteq> None then ''<reference href="cover.xhtml" type="cover" title="Cover"/>'' else [])
     @ ''\<newline></guide>\<newline></package>''\<close>
  by (simp add: generateOpf_def opfSpine_def fst_spineVolumes renderItemref_def [abs_def] opfGuide_def)

text \<open>
  C8. Each of the three documents is its template around a listing of the catalog. The
  spine of the package document has, after the cover page, one \<open>itemref\<close> for each
  chapter; the navigation map has one \<open>navPoint\<close> for each volume, holding one for each
  of its chapters, and their play orders count up from 1 in the order of the document;
  the navigation document has one entry for each volume, holding one for each of its
  chapters. In each of them the volumes are those of \<open>volumes\<close> in ascending order of
  index and the chapters of a volume are its chapters in ascending order of index: the
  two sorts keep the elements and give a list that is sorted. Every generator leaves
  \<open>volumes\<close> as \<open>sortCatalog\<close> of what it found, the volumes sorted with their chapters
  sorted, and sorting again changes nothing, so the three documents of one \<open>save\<close> go
  through the same list. When the indices are distinct the list does not depend on the
  order in which the volumes, or the chapters of a volume, were added.
\<close>

theorem documents_sorted_by_index:
  \<open>sorted (map v_idx (sortCatalog (volumes st)))
   \<and> (\<forall>v \<in> set (sortCatalog (volumes st)). sorted (map c_idx (chapters v)))
   \<and> mset (map (\<lambda>v. (v_title v, v_idx v, containerFile v, mset (chapters v))) (sortCatalog (volumes st)))
       = mset (map (\<lambda>v. (v_title v, v_idx v, containerFile v, mset (chapters v))) (volumes st))
   \<and> volumes (snd (generateOpf e st)) = sortCatalog (volumes st)
   \<and> volumes (snd (generateNcx st)) = sortCatalog (volumes st)
   \<and> volumes (snd (generateNav st)) = sortCatalog (volumes st)
   \<and> sortCatalog (sortCatalog (volumes st)) = sortCatalog (volumes st)
   \<and> opfSpine st =
       (if cover (info st) \<noteq> None then [''cover''] else [])
       @ concat (map (\<lambda>v. map (\<lambda>c. sanitize (c_filename c)) (chapters v)) (sortCatalog (volumes st)))
   \<and> map (\<lambda>p. (np_label (fst p), map (\<lambda>cp. (np_label cp, np_src cp)) (snd p))) (ncxPoints st)
       = map (\<lambda>v. (v_title v, map (\<lambda>c. (c_title c, c_filename c)) (chapters v))) (sortCatalog (volumes st))
   \<and> map (\<lambda>it. (n_title it, n_chapters it)) (navItems st)
       = map (\<lambda>v. (v_title v, map (\<lambda>c. (c_filename c, c_title c)) (chapters v))) (sortCatalog (volumes st))
   \<and> (mset vs' = mset (volumes st) \<and> distinct (map v_idx (volumes st))
        \<longrightarrow> sortVolumes vs' = sortVolumes (volumes st))
   \<and> (mset cs' = mset cs \<and> distinct (map c_idx cs) \<longrightarrow> sortChapters cs' = sortChapters cs)
   \<and> sorted (map v_idx (sortVolumes (volumes st)))
   \<and> mset (sortVolumes (volumes st)) = mset (volumes st)
   \<and> sorted (map c_idx (sortChapters cs))
   \<and> mset (sortChapters cs) = mset cs
   \<and> sortCatalog (volumes st)
       = map (\<lambda>v. v\<lparr>chapters := sortChapters (chapters v)\<rparr>) (sortVolumes (volumes st))
   \<and> fst (generateOpf e st) =
       ''<?xml version="1.0" encoding="UTF-8"?>\<newline><package xmlns="http://www.idpf.org/2007/opf" unique-identifier="BookId" version="3.0">\<newline><metadata xmlns:dc="http://purl.org/dc/elements/1.1/">\<newline>''
       @ join ''\<newline>    '' (opfMetadata e st)
       @ ''\<newline></metadata>\<newline><manifest>\<newline>''
       @ join ''\<newline>    '' (map renderItem (opfManifest st))
       @ ''\<newline></manifest>\<newline><spine toc="ncx">\<newline>''
       @ join ''\<newline>    '' (map (\<lambda>idref. ''<itemref idref="'' @ idref @ ''"/>'')
           ((if cover (info st) \<noteq> None then [''cover''] else [])
            @ concat (map (\<lambda>v. map (\<lambda>c. sanitize (c_filename c)) (sortChapters (chapters v)))
                          (sortVolumes (volumes st)))))
       @ ''\<newline></spine>\<newline><guide>\<newline>''
       @ (if cover (info st) \<noteq> None then ''<reference href="cover.xhtml" type="cover" title="Cover"/>'' else [])
       @ ''\<newline></guide>\<newline></package>''
   \<and> fst (generateNcx st) =
       ''<?xml version="1.0" encoding="UTF-8"?>\<newline><!DOCTYPE ncx PUBLIC "-//NISO//DTD ncx 2005-1//EN" "http://www.daisy.org/z3986/2005/ncx-2005-1.dtd">\<newline><ncx xmlns="http://www.daisy.org/z3986/2005/ncx/" version="2005-1">\<newline><head>\<newline><meta name="dtb:uid" content="urn:uuid:''
       @ uuid st
       @ ''"/>\<newline><meta name="dtb:depth" content="2"/>\<newline><meta name="dtb:totalPageCount" content="0"/>\<newline><meta name="dtb:maxPageNumber" content="0"/>\<newline></head>\<newline><docTitle>\<newline><text>''
       @ showInfo (bookname (info st)) ''Untitled''
       @ ''</text>\<newline></docTitle>\<newline><navMap>\<newline>''
       @ join [] (map (\<lambda>p.
            ''\<newline><navPoint id="navpoint-'' @ string_of_nat (np_order (fst p))
            @ ''" playOrder="'' @ string_of_nat (np_order (fst p))
            @ ''">\<newline>  <navLabel><text>'' @ np_label (fst p)
            @ ''</text></navLabel>\<newline>  <content src="'' @ np_src (fst p) @ ''"/>''
            @ join [] (map (\<lambda>cp.
                 ''\<newline>    <navPoint id="navpoint-'' @ string_of_nat (np_order cp)
                 @ ''" playOrder="'' @ string_of_nat (np_order cp)
                 @ ''">\<newline>      <navLabel><text>'' @ np_label cp
                 @ ''</text></navLabel>\<newline>      <content src="'' @ np_src cp
                 @ ''"/>\<newline>    </navPoint>'') (snd p))
            @ ''</navPoint>'') (ncxPoints st))
       @ ''\<newline></navMap>\<newline></ncx>''
   \<and> map (\<lambda>p. (np_label (fst p), np_src (fst p), map (\<lambda>cp. (np_label cp, np_src cp)) (snd p)))
         (ncxPoints st)
       = map (\<lambda>v. (v_title v,
                    orElse (containerFile v)
                      (case chapters v of [] \<Rightarrow> ''undefined'' | c # _ \<Rightarrow> c_filename c),
                    map (\<lambda>c. (c_title c, c_filename c)) (sortChapters (chapters v))))
             (sortVolumes (volumes st))
   \<and> map np_order (concat (map (\<lambda>p. fst p # snd p) (ncxPoints st)))
       = [1..<1 + length (concat (map (\<lambda>p. fst p # snd p) (ncxPoints st)))]
   \<and> fst (generateNav st) =
       ''<?xml version="1.0" encoding="UTF-8"?>\<newline><html xmlns="http://www.w3.org/1999/xhtml" xmlns:epub="http://www.idpf.org/2007/ops">\<newline><head>\<newline><title>Table of Contents</title>\<newline></head>\<newline><body>\<newline><nav epub:type="toc">\<newline><h1>Table of Contents</h1>\<newline><ol>\<newline>''
       @ join [] (map (\<lambda>v.
            ''\<newline><li>\<newline>  <a href="'' @ (case chapters v of [] \<Rightarrow> [] | c # _ \<Rightarrow> c_filename c)
            @ ''">'' @ v_title v @ ''</a>\<newline>  <ol>\<newline>    ''
            @ join [] (map (\<lambda>c. ''\<newline>      <li><a href="'' @ c_filename c @ ''">'' @ c_title c
                                    @ ''</a></li>\<newline>    '') (sortChapters (chapters v)))
            @ ''\<newline>  </ol>\<newline></li>\<newline>'') (sortVolumes (volumes st)))
       @ ''\<newline></ol>\<newline></nav>\<newline></body>\<newline></html>''\<close>
proof -
  have 1: "sorted (map v_idx (sortCatalog (volumes st)))"
    by (rule sorted_sortCatalog)
  have 2: "\<forall>v \<in> set (sortCatalog (volumes st)). sorted (map c_idx (chapters v))"
    by (simp add: chapters_sortCatalog)
  have 3: "volumes (snd (generateOpf e st)) = sortCatalog (volumes st)"
    by (simp add: generateOpf_def snd_spineVolumes sortCatalog_def)
  have 4: "volumes (snd (generateNcx st)) = sortCatalog (volumes st)"
    by (simp add: generateNcx_def snd_ncxVolumes sortCatalog_def)
  have 5: "volumes (snd (generateNav st)) = sortCatalog (volumes st)"
    by (simp add: generateNav_def snd_navVolumes sortCatalog_def)
  have 6: "opfSpine st =
       (if cover (info st) \<noteq> None then [''cover''] else [])
       @ concat (map (\<lambda>v. map (\<lambda>c. sanitize (c_filename c)) (chapters v)) (sortCatalog (volumes st)))"
    by (simp add: opfSpine_def fst_spineVolumes sortCatalog_def comp_def)
  have 7: "map (\<lambda>p. (np_label (fst p), map (\<lambda>cp. (np_label cp, np_src cp)) (snd p))) (ncxPoints st)
       = map (\<lambda>v. (v_title v, map (\<lambda>c. (c_title c, c_filename c)) (chapters v))) (sortCatalog (volumes st))"
    by (simp add: ncxPoints_def fst_ncxVolumes sortCatalog_def comp_def)
  have 8: "map (\<lambda>it. (n_title it, n_chapters it)) (navItems st)
       = map (\<lambda>v. (v_title v, map (\<lambda>c. (c_filename c, c_title c)) (chapters v))) (sortCatalog (volumes st))"
    by (simp add: navItems_def fst_navVolumes sortCatalog_def comp_def)
  have 9: "mset vs' = mset (volumes st) \<and> distinct (map v_idx (volumes st))
        \<longrightarrow> sortVolumes vs' = sortVolumes (volumes st)"
    using sort_key_perm [of vs' "volumes st" v_idx] by (simp add: sortVolumes_def)
  have 10: "mset cs' = mset cs \<and> distinct (map c_idx cs) \<longrightarrow> sortChapters cs' = sortChapters cs"
    using sort_key_perm [of cs' cs c_idx] by (simp add: sortChapters_def)
  have 11: "mset (sortVolumes (volumes st)) = mset (volumes st)"
    by (simp add: sortVolumes_def)
  have 12: "mset (sortChapters cs) = mset cs"
    by (simp add: sortChapters_def)
  have 13: "sortCatalog (volumes st)
       = map (\<lambda>v. v\<lparr>chapters := sortChapters (chapters v)\<rparr>) (sortVolumes (volumes st))"
    by (simp add: sortCatalog_def)
  have 14: "map (\<lambda>p. (np_label (fst p), np_src (fst p), map (\<lambda>cp. (np_label cp, np_src cp)) (snd p)))
         (ncxPoints st)
       = map (\<lambda>v. (v_title v,
                    orElse (containerFile v)
                      (case chapters v of [] \<Rightarrow> ''undefined'' | c # _ \<Rightarrow> c_filename c),
                    map (\<lambda>c. (c_title c, c_filename c)) (sortChapters (chapters v))))
             (sortVolumes (volumes st))"
    unfolding ncxPoints_def by (rule listing_ncxVolumes)
  have 15: "map np_order (concat (map (\<lambda>p. fst p # snd p) (ncxPoints st)))
       = [1..<1 + length (concat (map (\<lambda>p. fst p # snd p) (ncxPoints st)))]"
    unfolding ncxPoints_def by (rule orders_ncxVolumes)
  show ?thesis
    by (intro conjI)
       (fact 1, fact 2, fact mset_sortCatalog, fact 3, fact 4, fact 5, fact sortCatalog_idem,
        fact 6, fact 7, fact 8, fact 9, fact 10, fact sorted_sortVolumes, fact 11,
        fact sorted_sortChapters, fact 12, fact 13, fact document_generateOpf,
        fact document_generateNcx, fact 14, fact 15, fact document_generateNav)
qed

text \<open>
  A volume of index 2 with the chapters 1 and 0, added before a volume of index 1, and
  the navigation map of this document.
\<close>

theorem documents_sorted_by_index_witness:
  \<open>map (\<lambda>v. (v_idx v, map c_idx (chapters v)))
       (sortCatalog
          [\<lparr> v_title = ''V'', v_idx = 2,
               chapters = [\<lparr> c_idx = 1, c_title = ''B'', c_filename = ''chapter_2_1.xhtml'' \<rparr>,
                           \<lparr> c_idx = 0, c_title = ''A'', c_filename = ''chapter_2_0.xhtml'' \<rparr>],
               containerFile = ''volume_2.xhtml'' \<rparr>,
           \<lparr> v_title = ''W'', v_idx = 1, chapters = [], containerFile = ''volume_1.xhtml'' \<rparr>])
     = [(1, []), (2, [0, 1])]
   \<and> sorted (map c_idx (chapters
        \<lparr> v_title = ''V'', v_idx = 2,
               chapters = [\<lparr> c_idx = 0, c_title = ''A'', c_filename = ''chapter_2_0.xhtml'' \<rparr>,
                           \<lparr> c_idx = 1, c_title = ''B'', c_filename = ''chapter_2_1.xhtml'' \<rparr>],
               containerFile = ''volume_2.xhtml'' \<rparr>))
   \<and> sortVolumes
        [\<lparr> v_title = ''W'', v_idx = 1, chapters = [], containerFile = ''volume_1.xhtml'' \<rparr>,
         \<lparr> v_title = ''V'', v_idx = 2,
               chapters = [\<lparr> c_idx = 1, c_title = ''B'', c_filename = ''chapter_2_1.xhtml'' \<rparr>,
                           \<lparr> c_idx = 0, c_title = ''A'', c_filename = ''chapter_2_0.xhtml'' \<rparr>],
               containerFile = ''volume_2.xhtml'' \<rparr>]
     = sortVolumes
        [\<lparr> v_title = ''V'', v_idx = 2,
               chapters = [\<lparr> c_idx = 1, c_title = ''B'', c_filename = ''chapter_2_1.xhtml'' \<rparr>,
                           \<lparr> c_idx = 0, c_title = ''A'', c_filename = ''chapter_2_0.xhtml'' \<rparr>],
               containerFile = ''volume_2.xhtml'' \<rparr>,
         \<lparr> v_title = ''W'', v_idx = 1, chapters = [], containerFile = ''volume_1.xhtml'' \<rparr>]
   \<and> sortChapters [\<lparr> c_idx = 0, c_title = ''A'', c_filename = ''chapter_2_0.xhtml'' \<rparr>,
                     \<lparr> c_idx = 1, c_title = ''B'', c_filename = ''chapter_2_1.xhtml'' \<rparr>]
     = sortChapters [\<lparr> c_idx = 1, c_title = ''B'', c_filename = ''chapter_2_1.xhtml'' \<rparr>,
                     \<lparr> c_idx = 0, c_title = ''A'', c_filename = ''chapter_2_0.xhtml'' \<rparr>]
   \<and> fst (generateNcx ((newEpub ''u'')\<lparr>volumes :=
          [\<lparr> v_title = ''V'', v_idx = 2,
               chapters = [\<lparr> c_idx = 1, c_title = ''B'', c_filename = ''chapter_2_1.xhtml'' \<rparr>,
                           \<lparr> c_idx = 0, c_title = ''A'', c_filename = ''chapter_2_0.xhtml'' \<rparr>],
               containerFile = ''volume_2.xhtml'' \<rparr>,
           \<lparr> v_title = ''W'', v_idx = 1, chapters = [], containerFile = ''volume_1.xhtml'' \<rparr>]\<rparr>))
     = ''<?xml version="1.0" encoding="UTF-8"?>\<newline><!DOCTYPE ncx PUBLIC "-//NISO//DTD ncx 2005-1//EN" "http://www.daisy.org/z3986/2005/ncx-2005-1.dtd">\<newline><ncx xmlns="http://www.daisy.org/z3986/2005/ncx/" version="2005-1">\<newline><head>\<newline><meta name="dtb:uid" content="urn:uuid:u"/>\<newline><meta name="dtb:depth" content="2"/>\<newline><meta name="dtb:totalPageCount" content="0"/>\<newline><meta name="dtb:maxPageNumber" content="0"/>\<newline></head>\<newline><docTitle>\<newline><text>Untitled</text>\<newline></docTitle>\<newline><navMap>\<newline>\<newline><navPoint id="navpoint-1" playOrder="1">\<newline>  <navLabel><text>W</text></navLabel>\<newline>  <content src="volume_1.xhtml"/></navPoint>\<newline><navPoint id="navpoint-2" playOrder="2">\<newline>  <navLabel><text>V</text></navLabel>\<newline>  <content src="volume_2.xhtml"/>\<newline>    <navPoint id="navpoint-3" playOrder="3">\<newline>      <navLabel><text>A</text></navLabel>\<newline>      <content src="chapter_2_0.xhtml"/>\<newline>    </navPoint>\<newline>    <navPoint id="navpoint-4" playOrder="4">\<newline>      <navLabel><text>B</text></navLabel>\<newline>      <content src="chapter_2_1.xhtml"/>\<newline>    </navPoint></navPoint>\<newline></navMap>\<newline></ncx>''\<close>
proof -
  let ?c0 = "\<lparr> c_idx = 0, c_title = ''A'', c_filename = ''chapter_2_0.xhtml'' \<rparr>"
  let ?c1 = "\<lparr> c_idx = 1, c_title = ''B'', c_filename = ''chapter_2_1.xhtml'' \<rparr>"
  let ?v = "\<lparr> v_title = ''V'', v_idx = 2, chapters = [?c1, ?c0], containerFile = ''volume_2.xhtml'' \<rparr>"
  let ?w = "\<lparr> v_title = ''W'', v_idx = 1, chapters = [], containerFile = ''volume_1.xhtml'' \<rparr>"
  let ?st = "(newEpub ''u'')\<lparr>volumes := [?v, ?w]\<rparr>"
  note t = documents_sorted_by_index [of ?st sampleEnv "[?w, ?v]" "[?c0, ?c1]" "[?c1, ?c0]"]
  have cat: "sortCatalog [?v, ?w] = [?w, ?v\<lparr>chapters := [?c0, ?c1]\<rparr>]"
    by (simp add: sortCatalog_def sortVolumes_def sortChapters_def)
  have m1: "mset [?w, ?v] = mset (volumes ?st)" by (simp add: add_mset_commute)
  have d1: "distinct (map v_idx (volumes ?st))" by simp
  have m2: "mset [?c0, ?c1] = mset [?c1, ?c0]" by (simp add: add_mset_commute)
  have d2: "distinct (map c_idx [?c1, ?c0])" by simp
  have mem: "?v\<lparr>chapters := [?c0, ?c1]\<rparr> \<in> set (sortCatalog (volumes ?st))"
    by (simp add: cat)
  from t mem have "sorted (map c_idx (chapters (?v\<lparr>chapters := [?c0, ?c1]\<rparr>)))" by blast
  moreover from t m1 d1 have "sortVolumes [?w, ?v] = sortVolumes (volumes ?st)" by blast
  moreover from t m2 d2 have "sortChapters [?c0, ?c1] = sortChapters [?c1, ?c0]" by blast
  moreover have \<open>fst (generateNcx ?st) = ''<?xml version="1.0" encoding="UTF-8"?>\<newline><!DOCTYPE ncx PUBLIC "-//NISO//DTD ncx 2005-1//EN" "http://www.daisy.org/z3986/2005/ncx-2005-1.dtd">\<newline><ncx xmlns="http://www.daisy.org/z3986/2005/ncx/" version="2005-1">\<newline><head>\<newline><meta name="dtb:uid" content="urn:uuid:u"/>\<newline><meta name="dtb:depth" content="2"/>\<newline><meta name="dtb:totalPageCount" content="0"/>\<newline><meta name="dtb:maxPageNumber" content="0"/>\<newline></head>\<newline><docTitle>\<newline><text>Untitled</text>\<newline></docTitle>\<newline><navMap>\<newline>\<newline><navPoint id="navpoint-1" playOrder="1">\<newline>  <navLabel><text>W</text></navLabel>\<newline>  <content src="volume_1.xhtml"/></navPoint>\<newline><navPoint id="navpoint-2" playOrder="2">\<newline>  <navLabel><text>V</text></navLabel>\<newline>  <content src="volume_2.xhtml"/>\<newline>    <navPoint id="navpoint-3" playOrder="3">\<newline>      <navLabel><text>A</text></navLabel>\<newline>      <content src="chapter_2_0.xhtml"/>\<newline>    </navPoint>\<newline>    <navPoint id="navpoint-4" playOrder="4">\<newline>      <navLabel><text>B</text></navLabel>\<newline>      <content src="chapter_2_1.xhtml"/>\<newline>    </navPoint></navPoint>\<newline></navMap>\<newline></ncx>''\<close>
    by code_simp
  ultimately show ?thesis by (simp add: cat)
qed

section \<open>Cross-document consistency\<close>

subsection \<open>What each call does to the resource table and to the catalog\<close>

lemma volumes_addResource: "volumes (addResource st p b) = volumes st"
  by (simp add: addResource_def)

lemma has_registerResources:
  "has (resources st) p \<Longrightarrow> has (resources (registerResources st rs)) p"
  by (induction st rs rule: registerResources.induct) (simp_all add: has_addResource)

lemma volumes_registerResources: "volumes (registerResources st rs) = volumes st"
  by (induction st rs rule: registerResources.induct) (simp_all add: volumes_addResource)

lemma resources_processImages: "resources (snd (snd (processImages e st content))) = resources st"
  by (simp add: processImages_def processImagesDoc_def split_def Let_def)

lemma volumes_processImages: "volumes (snd (snd (processImages e st content))) = volumes st"
  by (simp add: processImages_def processImagesDoc_def split_def Let_def)

lemma has_cssUrlLoop:
  "has (resources st) p \<Longrightarrow> has (resources (snd (cssUrlLoop e st urls))) p"
  by (induction urls arbitrary: st)
     (simp_all add: Let_def split_def has_addResource split: option.splits)

lemma volumes_cssUrlLoop: "volumes (snd (cssUrlLoop e st urls)) = volumes st"
  by (induction urls arbitrary: st)
     (simp_all add: Let_def split_def volumes_addResource split: option.splits)

lemma has_addCSS:
  "addCSS e st idx content filename mapname = Inr (i, st') \<Longrightarrow> has (resources st) p \<Longrightarrow>
   has (resources st') p"
  by (auto simp: addCSS_def processCSSUrls_def Let_def split_def has_addResource has_cssUrlLoop
      split: option.splits if_splits)

lemma volumes_addCSS:
  "addCSS e st idx content filename mapname = Inr (i, st') \<Longrightarrow> volumes st' = volumes st"
  by (auto simp: addCSS_def processCSSUrls_def Let_def split_def volumes_addResource volumes_cssUrlLoop
      split: option.splits if_splits)

lemma setInfo_frame:
  "setInfo e st tag v = Inr st' \<Longrightarrow> resources st' = resources st \<and> volumes st' = volumes st"
  by (auto simp: setInfo_def split: if_splits infoValue.splits option.splits)

lemma has_opfCover_mono: "has (resources st) p \<Longrightarrow> has (resources (opfCover st)) p"
  by (simp add: opfCover_def has_addResource split: option.splits)

subsection \<open>The invariant\<close>

lemma filesRegistered_mono:
  assumes "filesRegistered st" and "volumes st' = volumes st"
    and "\<And>p. has (resources st) p \<Longrightarrow> has (resources st') p"
  shows "filesRegistered st'"
  using assms unfolding filesRegistered_def by auto

lemma filesRegistered_newEpub: "filesRegistered (newEpub u)"
  by (simp add: filesRegistered_def newEpub_def)

lemma filesRegistered_addVolume:
  assumes "filesRegistered st"
  shows "filesRegistered (snd (addVolume st title idx))"
proof -
  let ?f = "''volume_'' @ string_of_int idx @ ''.xhtml''"
  let ?st1 = "addResource st ?f (encode (volumeContent title))"
  have r: "filesRegistered ?st1"
    using assms by (rule filesRegistered_mono) (simp_all add: volumes_addResource has_addResource)
  have v: "snd (addVolume st title idx) =
      ?st1\<lparr>volumes := volumes ?st1 @ [\<lparr> v_title = title, v_idx = idx, chapters = [], containerFile = ?f \<rparr>]\<rparr>"
    by (simp add: addVolume_def newVolume_def Let_def)
  have "has (resources ?st1) ?f" by (simp add: has_addResource)
  with r show ?thesis
    unfolding v filesRegistered_def by auto
qed

lemma filesRegistered_addChapter:
  assumes "filesRegistered st"
  shows "filesRegistered (snd (addChapter e st k idx content title contentType insertTitle useGlobalCSS cssIdxs))"
proof (cases "k < length (volumes st)")
  case False
  with assms show ?thesis by (simp add: addChapter_def)
next
  case True
  let ?vol = "volumes st ! k"
  let ?pi = "processImages e st (wrapContent (extractContent content) title contentType insertTitle)"
  let ?st2 = "registerResources (snd (snd ?pi)) (fst (snd ?pi))"
  let ?f = "''chapter_'' @ string_of_int (v_idx ?vol) @ ''_'' @ string_of_int idx @ ''.xhtml''"
  let ?x = "buildXhtml ?st2 (fst ?pi) title useGlobalCSS cssIdxs"
  let ?st3 = "addResource ?st2 ?f (encode ?x)"
  let ?vol' = "?vol\<lparr>chapters := chapters ?vol @ [\<lparr> c_idx = idx, c_title = title, c_filename = ?f \<rparr>]\<rparr>"
  have e: "snd (addChapter e st k idx content title contentType insertTitle useGlobalCSS cssIdxs)
      = ?st3\<lparr>volumes := (volumes ?st3)[k := ?vol']\<rparr>"
    using True by (simp add: addChapter_def Let_def split_def)
  have v3: "volumes ?st3 = volumes st"
    by (simp add: volumes_addResource volumes_registerResources volumes_processImages)
  have h3: "has (resources st) p \<Longrightarrow> has (resources ?st3) p" for p
    by (simp add: has_addResource has_registerResources resources_processImages)
  have r3: "filesRegistered ?st3"
    using assms v3 h3 by (rule filesRegistered_mono)
  have f3: "has (resources ?st3) ?f" by (simp add: has_addResource)
  have this_in: "?vol \<in> set (volumes ?st3)"
    using True v3 by simp
  show ?thesis
    unfolding e filesRegistered_def
  proof (intro ballI)
    fix v assume "v \<in> set (volumes (?st3\<lparr>volumes := (volumes ?st3)[k := ?vol']\<rparr>))"
    then have "v \<in> set ((volumes ?st3)[k := ?vol'])" by simp
    then have "v = ?vol' \<or> v \<in> set (volumes ?st3)"
      using set_update_subset_insert [of "volumes ?st3" k ?vol'] by auto
    then show "containerFile v \<noteq> [] \<and> has (resources (?st3\<lparr>volumes := (volumes ?st3)[k := ?vol']\<rparr>)) (containerFile v)
        \<and> (\<forall>c \<in> set (chapters v). c_filename c \<noteq> []
              \<and> has (resources (?st3\<lparr>volumes := (volumes ?st3)[k := ?vol']\<rparr>)) (c_filename c))"
    proof
      assume "v = ?vol'"
      with r3 this_in f3 show ?thesis
        unfolding filesRegistered_def by auto
    next
      assume "v \<in> set (volumes ?st3)"
      with r3 show ?thesis
        unfolding filesRegistered_def by auto
    qed
  qed
qed

lemma filesRegistered_sortCatalog:
  assumes "filesRegistered st" and "volumes st' = sortCatalog (volumes st)"
    and "\<And>p. has (resources st) p \<Longrightarrow> has (resources st') p"
  shows "filesRegistered st'"
  using assms unfolding filesRegistered_def sortCatalog_def sortVolumes_def sortChapters_def
  by auto

lemma filesRegistered_generateOpf:
  "filesRegistered st \<Longrightarrow> filesRegistered (snd (generateOpf e st))"
  by (erule filesRegistered_sortCatalog)
     (simp_all add: generateOpf_def snd_spineVolumes sortCatalog_def has_opfCover_mono)

lemma filesRegistered_generateNcx:
  "filesRegistered st \<Longrightarrow> filesRegistered (snd (generateNcx st))"
  by (erule filesRegistered_sortCatalog)
     (simp_all add: generateNcx_def snd_ncxVolumes sortCatalog_def)

lemma filesRegistered_generateNav:
  "filesRegistered st \<Longrightarrow> filesRegistered (snd (generateNav st))"
  by (erule filesRegistered_sortCatalog)
     (simp_all add: generateNav_def snd_navVolumes sortCatalog_def)

lemma filesRegistered_save: "filesRegistered st \<Longrightarrow> filesRegistered (snd (save e st))"
  by (simp add: state_save filesRegistered_generateNav filesRegistered_generateNcx
      filesRegistered_generateOpf)

lemma filesRegistered_exec: "filesRegistered st \<Longrightarrow> filesRegistered (exec e st c)"
proof (cases c)
  case (AddCSS idx content filename mapname)
  assume r: "filesRegistered st"
  show ?thesis
  proof (cases "addCSS e st idx content filename mapname")
    case (Inl err)
    with r AddCSS show ?thesis by simp
  next
    case (Inr res)
    obtain i st' where res: "res = (i, st')" by (cases res)
    from r have "filesRegistered st'"
      by (rule filesRegistered_mono)
         (use Inr res in \<open>auto simp: volumes_addCSS has_addCSS\<close>)
    with Inr res AddCSS show ?thesis by simp
  qed
next
  case (SetInfo tag v)
  assume r: "filesRegistered st"
  show ?thesis
  proof (cases "setInfo e st tag v")
    case (Inl err)
    with r SetInfo show ?thesis by simp
  next
    case (Inr st')
    from r have "filesRegistered st'"
      by (rule filesRegistered_mono) (use setInfo_frame [OF Inr] in simp_all)
    with Inr SetInfo show ?thesis by simp
  qed
qed (simp_all add: filesRegistered_addVolume filesRegistered_addChapter filesRegistered_save)

lemma filesRegistered_foldl:
  "filesRegistered st \<Longrightarrow> filesRegistered (foldl (exec e) st calls)"
  by (induction calls arbitrary: st) (simp_all add: filesRegistered_exec)

lemma filesRegistered_run: "filesRegistered (run e (newEpub u) calls)"
  by (simp add: run_def filesRegistered_foldl filesRegistered_newEpub)

subsection \<open>What the documents refer to\<close>

lemma chapterPoints_srcs: "map np_src (chapterPoints p cs) = map c_filename cs"
proof -
  have "map np_src (chapterPoints p cs) = map (\<lambda>(i, c). c_filename c) (zip [0..<length cs] cs)"
    by (simp add: chapterPoints_def split_def comp_def)
  then show ?thesis by (simp add: map_zip_upt)
qed

lemma ncxVolumes_srcs:
  "map (\<lambda>p. (np_src (fst p), map np_src (snd p))) (fst (ncxVolumes n vs))
     = map (\<lambda>v. (case firstFilename (chapters v) of
                     None \<Rightarrow> orElse (containerFile v) ''undefined''
                   | Some f \<Rightarrow> orElse (containerFile v) f,
                   map c_filename (sortChapters (chapters v)))) vs"
  by (induction vs arbitrary: n) (simp_all add: Let_def split_def chapterPoints_srcs)

lemma navVolumes_hrefs:
  "map (\<lambda>it. (n_href it, map fst (n_chapters it))) (fst (navVolumes vs))
     = map (\<lambda>v. (case firstFilename (chapters v) of None \<Rightarrow> [] | Some f \<Rightarrow> orElse f [],
                   map c_filename (sortChapters (chapters v)))) vs"
  by (induction vs) (simp_all add: Let_def split_def comp_def)

lemma in_map_eqD:
  "map f xs = map g ys \<Longrightarrow> x \<in> set xs \<Longrightarrow> \<exists>y \<in> set ys. f x = g y"
proof -
  assume e: "map f xs = map g ys" and x: "x \<in> set xs"
  from x have "f x \<in> set (map f xs)" by simp
  with e have "f x \<in> set (map g ys)" by simp
  then show ?thesis by auto
qed

lemma orElse_nonempty: "a \<noteq> [] \<Longrightarrow> orElse a b = a"
  by (simp add: orElse_def)

lemma ncxPoints_registered:
  assumes r: "filesRegistered st" and p: "p \<in> set (ncxPoints st)"
  shows "has (resources st) (np_src (fst p)) \<and> (\<forall>cp \<in> set (snd p). has (resources st) (np_src cp))"
proof -
  from in_map_eqD [OF ncxVolumes_srcs p [unfolded ncxPoints_def]]
  obtain v where v: "v \<in> set (sortVolumes (volumes st))"
    and s: "np_src (fst p) = (case firstFilename (chapters v) of
                     None \<Rightarrow> orElse (containerFile v) ''undefined''
                   | Some f \<Rightarrow> orElse (containerFile v) f)"
    and c: "map np_src (snd p) = map c_filename (sortChapters (chapters v))"
    by auto
  from v have vin: "v \<in> set (volumes st)" by (simp add: sortVolumes_def)
  with r have ne: "containerFile v \<noteq> []" and h: "has (resources st) (containerFile v)"
    and ch: "\<forall>c \<in> set (chapters v). has (resources st) (c_filename c)"
    unfolding filesRegistered_def by auto
  from s ne have "np_src (fst p) = containerFile v"
    by (simp add: orElse_nonempty split: option.splits)
  with h have 1: "has (resources st) (np_src (fst p))" by simp
  have 2: "\<forall>cp \<in> set (snd p). has (resources st) (np_src cp)"
  proof
    fix cp assume "cp \<in> set (snd p)"
    then have "np_src cp \<in> set (map np_src (snd p))" by simp
    with c have "np_src cp \<in> c_filename ` set (chapters v)" by (simp add: sortChapters_def)
    with ch show "has (resources st) (np_src cp)" by auto
  qed
  from 1 2 show ?thesis ..
qed

lemma hd_sortChapters_in: "cs \<noteq> [] \<Longrightarrow> hd cs \<in> set cs"
  by simp

lemma navItems_registered:
  assumes r: "filesRegistered st" and s: "sortCatalog (volumes st) = volumes st"
    and p: "it \<in> set (navItems st)"
  shows "(\<forall>c \<in> set (n_chapters it). has (resources st) (fst c))
         \<and> (n_chapters it \<noteq> [] \<longrightarrow> n_href it = fst (hd (n_chapters it)))"
proof -
  from in_map_eqD [OF navVolumes_hrefs p [unfolded navItems_def]]
  obtain v where v: "v \<in> set (sortVolumes (volumes st))"
    and h: "n_href it = (case firstFilename (chapters v) of None \<Rightarrow> [] | Some f \<Rightarrow> orElse f [])"
    and c: "map fst (n_chapters it) = map c_filename (sortChapters (chapters v))"
    by auto
  from v have vin: "v \<in> set (volumes st)" by (simp add: sortVolumes_def)
  with r have ch: "\<forall>c \<in> set (chapters v). c_filename c \<noteq> [] \<and> has (resources st) (c_filename c)"
    unfolding filesRegistered_def by auto
  have 1: "\<forall>c \<in> set (n_chapters it). has (resources st) (fst c)"
  proof
    fix x assume "x \<in> set (n_chapters it)"
    then have "fst x \<in> set (map fst (n_chapters it))" by simp
    with c have "fst x \<in> c_filename ` set (chapters v)" by (simp add: sortChapters_def)
    with ch show "has (resources st) (fst x)" by auto
  qed
  from vin s have "v \<in> set (sortCatalog (volumes st))" by simp
  then obtain w where "v = w\<lparr>chapters := sortChapters (chapters w)\<rparr>"
    by (auto simp: sortCatalog_def)
  then have "sorted (map c_idx (chapters v))" by (simp add: sortChapters_def)
  then have sc: "sortChapters (chapters v) = chapters v"
    unfolding sortChapters_def by (rule sort_key_id_if_sorted)
  have 2: "n_chapters it \<noteq> [] \<longrightarrow> n_href it = fst (hd (n_chapters it))"
  proof
    assume n: "n_chapters it \<noteq> []"
    with c sc have cv: "chapters v \<noteq> []" by auto
    then obtain c0 cs where cc: "chapters v = c0 # cs" by (cases "chapters v") auto
    with ch have "c_filename c0 \<noteq> []" by simp
    with h cc have "n_href it = c_filename c0"
      by (simp add: firstFilename_def orElse_nonempty)
    moreover from n have "fst (hd (n_chapters it)) = hd (map fst (n_chapters it))"
      by (simp add: hd_map)
    ultimately show "n_href it = fst (hd (n_chapters it))"
      using c sc cc by simp
  qed
  from 1 2 show ?thesis ..
qed

lemma opfManifest_items:
  "opfManifest st =
     [\<lparr> i_id = ''nav'', i_href = ''nav.xhtml'', i_mediaType = ''application/xhtml+xml'',
        i_properties = Some ''nav'' \<rparr>,
      \<lparr> i_id = ''ncx'', i_href = ''toc.ncx'', i_mediaType = ''application/x-dtbncx+xml'',
        i_properties = None \<rparr>]
     @ (if cover (info st) \<noteq> None
        then [\<lparr> i_id = ''cover-image'', i_href = ''images/cover.jpg'', i_mediaType = ''image/jpeg'',
                i_properties = Some ''cover-image'' \<rparr>,
              \<lparr> i_id = ''cover'', i_href = ''cover.xhtml'', i_mediaType = ''application/xhtml+xml'',
                i_properties = None \<rparr>]
        else [])
     @ map resourceItem (keys (resources (opfCover st)))"
  by (simp add: opfManifest_def keys_def split_def comp_def)

lemma has_keys: "has m k \<longleftrightarrow> k \<in> set (keys m)"
  by (simp add: has_def keys_def)

lemma cover_files:
  "cover (info st) \<noteq> None \<Longrightarrow>
      has (resources (opfCover st)) ''images/cover.jpg'' \<and> has (resources (opfCover st)) ''cover.xhtml''"
  by (auto simp: opfCover_def has_addResource)

lemma manifest_hrefs:
  assumes "it \<in> set (opfManifest st)"
  shows "i_id it = ''nav'' \<and> i_href it = ''nav.xhtml'' \<or> i_id it = ''ncx'' \<and> i_href it = ''toc.ncx''
         \<or> has (resources (opfCover st)) (i_href it)"
proof -
  from assms consider
      (fixed) "i_id it = ''nav'' \<and> i_href it = ''nav.xhtml'' \<or> i_id it = ''ncx'' \<and> i_href it = ''toc.ncx''"
    | (cov) "cover (info st) \<noteq> None" "i_href it = ''images/cover.jpg'' \<or> i_href it = ''cover.xhtml''"
    | (res) "it \<in> resourceItem ` set (keys (resources (opfCover st)))"
    unfolding opfManifest_items by (cases "cover (info st) \<noteq> None") auto
  then show ?thesis
  proof cases
    case fixed
    then show ?thesis by blast
  next
    case cov
    with cover_files [of st] show ?thesis by auto
  next
    case res
    then obtain path where "path \<in> set (keys (resources (opfCover st)))" and "it = resourceItem path"
      by auto
    then have "has (resources (opfCover st)) (i_href it)"
      by (simp add: has_keys resourceItem_def)
    then show ?thesis by blast
  qed
qed

lemma manifest_of_resource:
  assumes "has (resources (opfCover st)) path"
  shows "\<exists>it \<in> set (opfManifest st). i_id it = sanitize path \<and> i_href it = path"
proof -
  from assms have "resourceItem path \<in> set (opfManifest st)"
    by (simp add: opfManifest_items has_keys)
  moreover have "i_id (resourceItem path) = sanitize path \<and> i_href (resourceItem path) = path"
    by (simp add: resourceItem_def)
  ultimately show ?thesis by blast
qed

lemma spine_idrefs:
  assumes r: "filesRegistered st" and i: "idref \<in> set (opfSpine st)"
  shows "\<exists>it \<in> set (opfManifest st). i_id it = idref \<and> has (resources (opfCover st)) (i_href it)"
proof -
  from i have "idref = ''cover'' \<and> cover (info st) \<noteq> None
      \<or> idref \<in> set (fst (spineVolumes (sortVolumes (volumes st))))"
    by (auto simp: opfSpine_def split: if_splits)
  then show ?thesis
  proof
    assume c: "idref = ''cover'' \<and> cover (info st) \<noteq> None"
    then have "\<lparr> i_id = ''cover'', i_href = ''cover.xhtml'', i_mediaType = ''application/xhtml+xml'',
                i_properties = None \<rparr> \<in> set (opfManifest st)"
      by (simp add: opfManifest_def)
    moreover from c have "has (resources (opfCover st)) ''cover.xhtml''"
      using cover_files [of st] by simp
    ultimately show ?thesis using c
      by (intro bexI [of _ "\<lparr> i_id = ''cover'', i_href = ''cover.xhtml'',
            i_mediaType = ''application/xhtml+xml'', i_properties = None \<rparr>"]) simp_all
  next
    assume "idref \<in> set (fst (spineVolumes (sortVolumes (volumes st))))"
    then obtain v c where v: "v \<in> set (volumes st)" and c: "c \<in> set (chapters v)"
      and e: "idref = sanitize (c_filename c)"
      by (auto simp: fst_spineVolumes sortVolumes_def sortChapters_def)
    from r v c have "has (resources st) (c_filename c)"
      unfolding filesRegistered_def by auto
    then have h: "has (resources (opfCover st)) (c_filename c)" by (rule has_opfCover_mono)
    from manifest_of_resource [OF h] obtain it where "it \<in> set (opfManifest st)"
      and "i_id it = sanitize (c_filename c)" and "i_href it = c_filename c" by auto
    with h e show ?thesis by auto
  qed
qed

text \<open>
  C1, as amended. For every document built by calls on a new document, at the time of
  \<open>save\<close>: every \<open>href\<close> of the manifest other than the two fixed items \<open>nav.xhtml\<close>
  and \<open>toc.ncx\<close>, which \<open>save\<close> writes to the archive itself, is a path of the final
  resource table, and so is the \<open>href\<close> of the guide's reference; every \<open>idref\<close> of the
  spine is the \<open>id\<close> of a manifest item whose \<open>href\<close> is such a path; every \<open>src\<close> of
  the navigation map is such a path; in the navigation document every chapter link is
  such a path, and the link of a volume that has chapters is the link of its first
  chapter in the list.
\<close>

theorem references_name_resources:
  assumes st: "st = run e (newEpub u) calls"
  shows "(\<forall>it \<in> set (opfManifest st).
            i_id it = ''nav'' \<and> i_href it = ''nav.xhtml'' \<or> i_id it = ''ncx'' \<and> i_href it = ''toc.ncx''
            \<or> has (resources (snd (save e st))) (i_href it))
       \<and> (\<forall>href. opfGuide st = Some href \<longrightarrow> has (resources (snd (save e st))) href)
       \<and> (\<forall>idref \<in> set (opfSpine st).
            \<exists>it \<in> set (opfManifest st). i_id it = idref \<and> has (resources (snd (save e st))) (i_href it))
       \<and> (\<forall>p \<in> set (ncxPoints (snd (generateOpf e st))).
            has (resources (snd (save e st))) (np_src (fst p))
            \<and> (\<forall>cp \<in> set (snd p). has (resources (snd (save e st))) (np_src cp)))
       \<and> (\<forall>it \<in> set (navItems (snd (generateNcx (snd (generateOpf e st))))).
            (\<forall>c \<in> set (n_chapters it). has (resources (snd (save e st))) (fst c))
            \<and> (n_chapters it \<noteq> [] \<longrightarrow> n_href it = fst (hd (n_chapters it))))"
proof -
  let ?st1 = "snd (generateOpf e st)"
  let ?st2 = "snd (generateNcx ?st1)"
  have r: "filesRegistered st" unfolding st by (rule filesRegistered_run)
  then have r1: "filesRegistered ?st1" by (rule filesRegistered_generateOpf)
  then have r2: "filesRegistered ?st2" by (rule filesRegistered_generateNcx)
  have R: "resources (snd (save e st)) = resources (opfCover st)" by (rule resources_save)
  have R1: "resources ?st1 = resources (opfCover st)" by (rule resources_generateOpf)
  have R2: "resources ?st2 = resources (opfCover st)"
    by (simp add: resources_generateNcx resources_generateOpf)
  have v2: "sortCatalog (volumes ?st2) = volumes ?st2"
    by (simp add: generateNcx_def snd_ncxVolumes sortCatalog_def [symmetric] sortCatalog_idem)
  have 1: "\<forall>it \<in> set (opfManifest st).
            i_id it = ''nav'' \<and> i_href it = ''nav.xhtml'' \<or> i_id it = ''ncx'' \<and> i_href it = ''toc.ncx''
            \<or> has (resources (snd (save e st))) (i_href it)"
    unfolding R using manifest_hrefs by blast
  have 2: "\<forall>href. opfGuide st = Some href \<longrightarrow> has (resources (snd (save e st))) href"
    unfolding R by (auto simp: opfGuide_def opfCover_def has_addResource split: if_splits)
  have 3: "\<forall>idref \<in> set (opfSpine st).
            \<exists>it \<in> set (opfManifest st). i_id it = idref \<and> has (resources (snd (save e st))) (i_href it)"
    unfolding R using spine_idrefs [OF r] by blast
  have 4: "\<forall>p \<in> set (ncxPoints ?st1).
            has (resources (snd (save e st))) (np_src (fst p))
            \<and> (\<forall>cp \<in> set (snd p). has (resources (snd (save e st))) (np_src cp))"
    unfolding R using ncxPoints_registered [OF r1] unfolding R1 by blast
  have 5: "\<forall>it \<in> set (navItems ?st2).
            (\<forall>c \<in> set (n_chapters it). has (resources (snd (save e st))) (fst c))
            \<and> (n_chapters it \<noteq> [] \<longrightarrow> n_href it = fst (hd (n_chapters it)))"
    unfolding R using navItems_registered [OF r2 v2] unfolding R2 by blast
  from 1 2 3 4 5 show ?thesis by (intro conjI)
qed

lemma volumes_addVolume:
  "volumes (snd (addVolume st title idx)) =
     volumes st @ [\<lparr> v_title = title, v_idx = idx, chapters = [],
                      containerFile = ''volume_'' @ string_of_int idx @ ''.xhtml'' \<rparr>]"
  by (simp add: addVolume_def newVolume_def Let_def volumes_addResource)

lemma volumes_addChapter:
  "k < length (volumes st) \<Longrightarrow>
   volumes (snd (addChapter e st k idx content title contentType insertTitle useGlobalCSS cssIdxs)) =
     (volumes st)[k := (volumes st ! k)\<lparr>chapters := chapters (volumes st ! k) @
        [\<lparr> c_idx = idx, c_title = title,
           c_filename = ''chapter_'' @ string_of_int (v_idx (volumes st ! k)) @ ''_''
                        @ string_of_int idx @ ''.xhtml'' \<rparr>]\<rparr>]"
  by (simp add: addChapter_def Let_def split_def volumes_addResource volumes_registerResources
      volumes_processImages)

lemma info_addVolume: "info (snd (addVolume st title idx)) = info st"
  by (simp add: addVolume_def newVolume_def Let_def addResource_def)

lemma info_registerResources: "info (registerResources st rs) = info st"
  by (induction st rs rule: registerResources.induct) (simp_all add: addResource_def)

lemma info_addChapter:
  "info (snd (addChapter e st k idx content title contentType insertTitle useGlobalCSS cssIdxs)) = info st"
  by (simp add: addChapter_def Let_def split_def addResource_def info_registerResources
      processImages_def processImagesDoc_def)

lemma volumes_generateOpf: "volumes (snd (generateOpf e st)) = sortCatalog (volumes st)"
  by (simp add: generateOpf_def snd_spineVolumes sortCatalog_def)

lemma volumes_generateNcx: "volumes (snd (generateNcx st)) = sortCatalog (volumes st)"
  by (simp add: generateNcx_def snd_ncxVolumes sortCatalog_def)

text \<open>
  C1 as stated fails. After \<open>addVolume('V', 1)\<close> on a new document the volume has no
  chapter: the navigation document links the volume to the empty string, which is not
  a path of the resource table. And the manifest of every document has the \<open>href\<close>
  \<open>nav.xhtml\<close>, which is an entry of the archive and not of the resource table.
\<close>

theorem references_name_resources_counterexample:
  "map n_href (navItems (snd (generateNcx (snd (generateOpf sampleEnv
        (run sampleEnv (newEpub ''u'') [AddVolume ''V'' 1])))))) = [[]]
   \<and> \<not> has (resources (snd (save sampleEnv (run sampleEnv (newEpub ''u'') [AddVolume ''V'' 1])))) []
   \<and> ''nav.xhtml'' \<in> set (map i_href (opfManifest (run sampleEnv (newEpub ''u'') [AddVolume ''V'' 1])))
   \<and> \<not> has (resources (snd (save sampleEnv (run sampleEnv (newEpub ''u'') [AddVolume ''V'' 1]))))
           ''nav.xhtml''"
proof -
  let ?st = "run sampleEnv (newEpub ''u'') [AddVolume ''V'' 1]"
  have v: "volumes ?st = [\<lparr> v_title = ''V'', v_idx = 1, chapters = [], containerFile = ''volume_1.xhtml'' \<rparr>]"
    by (simp add: run_def volumes_addVolume newEpub_def string_of_int_def string_of_nat_digit digit_def)
  have i: "cover (info ?st) = None"
    by (simp add: run_def info_addVolume newEpub_def)
  have k: "keys (resources ?st) = [''volume_1.xhtml'']"
    by (simp add: run_def addVolume_def newVolume_def addResource_def newEpub_def has_def
        mapSet_def keys_def string_of_int_def string_of_nat_digit digit_def Let_def)
  have R: "keys (resources (snd (save sampleEnv ?st))) = [''volume_1.xhtml'']"
    using i k by (simp add: resources_save opfCover_def)
  have 1: "map n_href (navItems (snd (generateNcx (snd (generateOpf sampleEnv ?st))))) = [[]]"
    by (simp add: navItems_def volumes_generateNcx volumes_generateOpf v sortCatalog_def
        sortVolumes_def sortChapters_def firstFilename_def)
  have 2: "''nav.xhtml'' \<in> set (map i_href (opfManifest ?st))"
    by (simp add: opfManifest_items)
  from 1 2 R show ?thesis by (simp add: has_keys)
qed

theorem references_name_resources_witness:
  "map (\<lambda>p. (np_src (fst p), map np_src (snd p)))
       (ncxPoints (snd (generateOpf sampleEnv (run sampleEnv (newEpub ''u'')
          [AddVolume ''V'' 2, AddVolume ''W'' 1, SetInfo ''cover'' (Bin ''JPG''),
           AddChapter 0 1 [] ''T'' ''html'' False True []]))))
     = [(''volume_1.xhtml'', []), (''volume_2.xhtml'', [''chapter_2_1.xhtml''])]
   \<and> has (resources (snd (save sampleEnv (run sampleEnv (newEpub ''u'')
          [AddVolume ''V'' 2, AddVolume ''W'' 1, SetInfo ''cover'' (Bin ''JPG''),
           AddChapter 0 1 [] ''T'' ''html'' False True []])))) ''volume_1.xhtml''
   \<and> has (resources (snd (save sampleEnv (run sampleEnv (newEpub ''u'')
          [AddVolume ''V'' 2, AddVolume ''W'' 1, SetInfo ''cover'' (Bin ''JPG''),
           AddChapter 0 1 [] ''T'' ''html'' False True []])))) ''chapter_2_1.xhtml''
   \<and> has (resources (snd (save sampleEnv (run sampleEnv (newEpub ''u'')
          [AddVolume ''V'' 2, AddVolume ''W'' 1, SetInfo ''cover'' (Bin ''JPG''),
           AddChapter 0 1 [] ''T'' ''html'' False True []])))) ''cover.xhtml''
   \<and> opfSpine (run sampleEnv (newEpub ''u'')
          [AddVolume ''V'' 2, AddVolume ''W'' 1, SetInfo ''cover'' (Bin ''JPG''),
           AddChapter 0 1 [] ''T'' ''html'' False True []])
     = [''cover'', ''chapter-2-1-xhtml'']
   \<and> (\<exists>it \<in> set (opfManifest (run sampleEnv (newEpub ''u'')
          [AddVolume ''V'' 2, AddVolume ''W'' 1, SetInfo ''cover'' (Bin ''JPG''),
           AddChapter 0 1 [] ''T'' ''html'' False True []])).
         i_id it = ''chapter-2-1-xhtml''
         \<and> has (resources (snd (save sampleEnv (run sampleEnv (newEpub ''u'')
          [AddVolume ''V'' 2, AddVolume ''W'' 1, SetInfo ''cover'' (Bin ''JPG''),
           AddChapter 0 1 [] ''T'' ''html'' False True []])))) (i_href it))
   \<and> map (\<lambda>it. (n_href it, map fst (n_chapters it)))
       (navItems (snd (generateNcx (snd (generateOpf sampleEnv (run sampleEnv (newEpub ''u'')
          [AddVolume ''V'' 2, AddVolume ''W'' 1, SetInfo ''cover'' (Bin ''JPG''),
           AddChapter 0 1 [] ''T'' ''html'' False True []]))))))
     = [([], []), (''chapter_2_1.xhtml'', [''chapter_2_1.xhtml''])]"
proof -
  let ?calls = "[AddVolume ''V'' 2, AddVolume ''W'' 1, SetInfo ''cover'' (Bin ''JPG''),
           AddChapter 0 1 [] ''T'' ''html'' False True []]"
  let ?st = "run sampleEnv (newEpub ''u'') ?calls"
  let ?R = "resources (snd (save sampleEnv ?st))"
  let ?c = "\<lparr> c_idx = 1, c_title = ''T'', c_filename = ''chapter_2_1.xhtml'' \<rparr>"
  let ?v = "\<lparr> v_title = ''V'', v_idx = 2, chapters = [?c], containerFile = ''volume_2.xhtml'' \<rparr>"
  let ?w = "\<lparr> v_title = ''W'', v_idx = 1, chapters = [], containerFile = ''volume_1.xhtml'' \<rparr>"
  note t = references_name_resources [of ?st sampleEnv "''u''" ?calls, OF refl]
  let ?st2 = "snd (addVolume (snd (addVolume (newEpub ''u'') ''V'' 2)) ''W'' 1)"
  let ?st3 = "?st2\<lparr>info := (info ?st2)\<lparr>cover := Some ''JPG''\<rparr>\<rparr>"
  have s: "?st = snd (addChapter sampleEnv ?st3 0 1 [] ''T'' ''html'' False True [])"
    by (simp add: run_def setInfo_def)
  have v3: "volumes ?st3 =
      [\<lparr> v_title = ''V'', v_idx = 2, chapters = [], containerFile = ''volume_2.xhtml'' \<rparr>, ?w]"
    by (simp add: volumes_addVolume newEpub_def string_of_int_def string_of_nat_digit digit_def)
  have v: "volumes ?st = [?v, ?w]"
    unfolding s by (subst volumes_addChapter) (simp_all add: v3 string_of_int_def string_of_nat_digit digit_def)
  have i: "cover (info ?st) = Some ''JPG''"
    unfolding s by (simp add: info_addChapter)
  have v1: "volumes (snd (generateOpf sampleEnv ?st)) = [?w, ?v]"
    by (simp add: volumes_generateOpf v sortCatalog_def sortVolumes_def sortChapters_def)
  have v2: "volumes (snd (generateNcx (snd (generateOpf sampleEnv ?st)))) = [?w, ?v]"
    by (simp add: volumes_generateNcx v1 sortCatalog_def sortVolumes_def sortChapters_def)
  have n: "map (\<lambda>p. (np_src (fst p), map np_src (snd p))) (ncxPoints (snd (generateOpf sampleEnv ?st)))
     = [(''volume_1.xhtml'', []), (''volume_2.xhtml'', [''chapter_2_1.xhtml''])]"
    unfolding ncxPoints_def
    by (subst ncxVolumes_srcs)
       (simp add: v1 sortVolumes_def sortChapters_def firstFilename_def orElse_def)
  have sp: "opfSpine ?st = [''cover'', ''chapter-2-1-xhtml'']"
    by (simp add: opfSpine_def fst_spineVolumes v i sortVolumes_def sortChapters_def sanitize_def)
  have nv: "map (\<lambda>it. (n_href it, map fst (n_chapters it)))
       (navItems (snd (generateNcx (snd (generateOpf sampleEnv ?st)))))
     = [([], []), (''chapter_2_1.xhtml'', [''chapter_2_1.xhtml''])]"
    unfolding navItems_def
    by (subst navVolumes_hrefs)
       (simp add: v2 sortVolumes_def sortChapters_def firstFilename_def orElse_def)
  have g: "opfGuide ?st = Some ''cover.xhtml''"
    by (simp add: opfGuide_def i)
  from n obtain p1 p2 where pp: "ncxPoints (snd (generateOpf sampleEnv ?st)) = [p1, p2]"
    and p1: "np_src (fst p1) = ''volume_1.xhtml''"
    and p2: "map np_src (snd p2) = [''chapter_2_1.xhtml'']"
    by (auto simp: map_eq_Cons_conv)
  from p2 obtain cp where cp: "snd p2 = [cp]" "np_src cp = ''chapter_2_1.xhtml''"
    by (auto simp: map_eq_Cons_conv)
  from t pp have "has ?R (np_src (fst p1))" by simp
  with p1 have h1: "has ?R ''volume_1.xhtml''" by simp
  from t pp cp have "has ?R (np_src cp)" by simp
  with cp have h2: "has ?R ''chapter_2_1.xhtml''" by simp
  from t g have h3: "has ?R ''cover.xhtml''" by blast
  from t sp have h4: "\<exists>it \<in> set (opfManifest ?st). i_id it = ''chapter-2-1-xhtml'' \<and> has ?R (i_href it)"
    by simp
  from n h1 h2 h3 sp h4 nv show ?thesis by (intro conjI)
qed

section \<open>The same image twice\<close>

text \<open>
  C3 fails on the code. Within one \<open>addChapter\<close> call no image is in \<open>resourceUrls\<close>
  before all have been fetched, so two images with the same URL are fetched twice and
  stored under two names, and the second mapping replaces the first. In a later call
  the image is in \<open>resourceUrls\<close> and its callback returns at once: nothing is fetched
  or registered again, but the \<open>src\<close> is left as it was, the external URL, where the
  first chapter has the local path.
\<close>

theorem same_url_not_deduplicated:
  \<open>(let st = run sampleEnv (newEpub ''u'')
        [AddVolume ''V'' 1,
         AddChapter 0 1 ''<img src="http://h/a.png"><img src="http://h/a.png">'' ''T'' ''html''
           False False []]
    in keys (resources st)
         = [''volume_1.xhtml'', ''images/img0.png'', ''images/img1.png'', ''chapter_1_1.xhtml'']
       \<and> resourceUrls st = [(''http://h/a.png'', ''images/img1.png'')]
       \<and> get (resources st) ''chapter_1_1.xhtml''
           = Some (xhtmlHead @ ''T</title>\<newline>\<newline></head>\<newline><body>\<newline><img src="images/img0.png" /><img src="images/img1.png" />\<newline></body>\<newline></html>''))
   \<and> (let st = run sampleEnv (newEpub ''u'')
        [AddVolume ''V'' 1,
         AddChapter 0 1 ''<img src="http://h/a.png">'' ''T'' ''html'' False False [],
         AddChapter 0 2 ''<img src="http://h/a.png">'' ''T'' ''html'' False False []]
    in keys (resources st)
         = [''volume_1.xhtml'', ''images/img0.png'', ''chapter_1_1.xhtml'', ''chapter_1_2.xhtml'']
       \<and> resourceUrls st = [(''http://h/a.png'', ''images/img0.png'')]
       \<and> get (resources st) ''chapter_1_1.xhtml''
           = Some (xhtmlHead @ ''T</title>\<newline>\<newline></head>\<newline><body>\<newline><img src="images/img0.png" />\<newline></body>\<newline></html>'')
       \<and> get (resources st) ''chapter_1_2.xhtml''
           = Some (xhtmlHead @ ''T</title>\<newline>\<newline></head>\<newline><body>\<newline><img src="http://h/a.png" />\<newline></body>\<newline></html>''))\<close>
  by (rule conjI; code_simp)

section \<open>Images that cannot be fetched\<close>

lemma settle_Cons:
  "fst (settle e n ((i, u) # ps)) =
     (i, finishImage e n u)
     # fst (settle e (case finishImage e n u of Removed \<Rightarrow> n | Stored a b c \<Rightarrow> Suc n) ps)"
  by (simp add: split_def Let_def split: outcome.splits)

lemma settle_sound:
  "(i, out) \<in> set (fst (settle e n ps)) \<Longrightarrow> \<exists>u m. (i, u) \<in> set ps \<and> out = finishImage e m u"
proof (induction ps arbitrary: n)
  case Nil
  then show ?case by simp
next
  case (Cons p ps)
  obtain j url where p: "p = (j, url)" by (cases p)
  let ?n = "case finishImage e n url of Removed \<Rightarrow> n | Stored a b c \<Rightarrow> Suc n"
  from Cons.prems p have "(i, out) = (j, finishImage e n url) \<or> (i, out) \<in> set (fst (settle e ?n ps))"
    by (simp only: settle_Cons set_simps insert_iff)
  then show ?case
  proof
    assume "(i, out) = (j, finishImage e n url)"
    with p show ?thesis by auto
  next
    assume "(i, out) \<in> set (fst (settle e ?n ps))"
    from Cons.IH [OF this] show ?thesis by auto
  qed
qed











lemma staged_iff:
  "(u, f, d) \<in> set (stagedResources outs) \<longleftrightarrow> (\<exists>i. (i, Stored u f d) \<in> set outs)"
  by (induction outs) (auto simp: stagedResources_def split: outcome.splits)












lemma processImagesDoc_parts:
  "processImagesDoc e st doc =
     (concat (map (\<lambda>r. case r of None \<Rightarrow> [] | Some nd \<Rightarrow> [nd]) (imageResults e st doc)),
      stagedResources (fst (imageOutcomes e st doc)),
      st\<lparr>resourceCounters := (resourceCounters st)\<lparr>image := snd (imageOutcomes e st doc)\<rparr>\<rparr>)"
  by (simp add: processImagesDoc_def split_def Let_def)





section \<open>The cover\<close>

lemma has_opfCover:
  "cover (info st) = Some c \<Longrightarrow> has (resources (opfCover st)) ''images/cover.jpg''"
  by (simp add: opfCover_def has_addResource)

lemma get_opfCover:
  "cover (info st) = Some c \<Longrightarrow> \<not> has (resources st) ''images/cover.jpg'' \<Longrightarrow>
   get (resources (opfCover st)) ''images/cover.jpg'' = Some c"
  by (simp add: opfCover_def get_addResource)

lemma get_in_set: "get m k = Some v \<Longrightarrow> (k, v) \<in> set m"
  by (simp add: get_def map_of_SomeD)

lemma has_in_keys: "has m k \<Longrightarrow> k \<in> set (keys m)"
  by (simp add: has_def keys_def)

lemma manifest_generateOpf:
  \<open>cover (info st) = Some c \<Longrightarrow>
   fst (generateOpf e st) =
     ''<?xml version="1.0" encoding="UTF-8"?>\<newline><package xmlns="http://www.idpf.org/2007/opf" unique-identifier="BookId" version="3.0">\<newline><metadata xmlns:dc="http://purl.org/dc/elements/1.1/">\<newline>''
     @ join ''\<newline>    '' (opfMetadata e st)
     @ ''\<newline></metadata>\<newline><manifest>\<newline><item id="nav" href="nav.xhtml" media-type="application/xhtml+xml" properties="nav"/>\<newline>    <item id="ncx" href="toc.ncx" media-type="application/x-dtbncx+xml"/>\<newline>    <item id="cover-image" href="images/cover.jpg" media-type="image/jpeg" properties="cover-image"/>\<newline>    <item id="cover" href="cover.xhtml" media-type="application/xhtml+xml"/>''
     @ concat (map (\<lambda>(path, content). ''\<newline>    <item id="'' @ sanitize path @ ''" href="'' @ path
                                        @ ''" media-type="'' @ mediaType path @ ''"/>'')
                   (resources (opfCover st)))
     @ ''\<newline></manifest>\<newline><spine toc="ncx">\<newline>''
     @ join ''\<newline>    '' (map renderItemref (opfSpine st))
     @ ''\<newline></spine>\<newline><guide>\<newline><reference href="cover.xhtml" type="cover" title="Cover"/>\<newline></guide>\<newline></package>''\<close>
  by (simp add: generateOpf_def opfManifest_def join_Cons renderItem_def resourceItem_def
      opfGuide_def split_def comp_def)

lemma metadata_cover:
  \<open>cover (info st) = Some c \<Longrightarrow> ''<meta name="cover" content="cover-image"/>'' \<in> set (opfMetadata e st)\<close>
  by (simp add: opfMetadata_def)

lemma opf_entry_save:
  "\<lparr> z_folder = ''OEBPS'', z_name = ''content.opf'', z_data = fst (generateOpf e st),
     z_compression = None \<rparr> \<in> set (entries (fst (save e st)))"
  by (simp add: entries_save)

lemma get_opfCover_kept:
  "has (resources st) ''images/cover.jpg'' \<Longrightarrow>
   get (resources (opfCover st)) ''images/cover.jpg'' = get (resources st) ''images/cover.jpg''"
  by (simp add: opfCover_def get_addResource has_addResource split: option.splits)

lemma finishImage_path:
  "finishImage e n u = Stored u' f d \<Longrightarrow> \<exists>x. f = ''images/img'' @ x"
  by (auto simp: finishImage_def Let_def split: option.splits if_splits)

lemma staged_paths:
  assumes "(u, f, d) \<in> set (fst (snd (processImages e st content)))"
  shows "\<exists>x. f = ''images/img'' @ x"
proof -
  from assms have "(u, f, d) \<in> set (stagedResources (fst (imageOutcomes e st (parseHtml e content))))"
    by (simp add: processImages_def processImagesDoc_parts)
  then obtain i where "(i, Stored u f d) \<in> set (fst (imageOutcomes e st (parseHtml e content)))"
    by (auto simp: staged_iff)
  then obtain u0 m where "Stored u f d = finishImage e m u0"
    unfolding imageOutcomes_def by (blast dest: settle_sound)
  then show ?thesis by (metis finishImage_path)
qed

lemma has_registerResources_iff:
  "has (resources (registerResources st rs)) p
     \<longleftrightarrow> has (resources st) p \<or> p \<in> (\<lambda>(u, f, d). f) ` set rs"
  by (induction st rs rule: registerResources.induct) (auto simp: has_addResource)

lemma cover_free_addVolume:
  "\<not> has (resources st) ''images/cover.jpg'' \<Longrightarrow>
   \<not> has (resources (snd (addVolume st title idx))) ''images/cover.jpg''"
  by (simp add: addVolume_def newVolume_def Let_def has_addResource)

lemma cover_free_addChapter:
  assumes n: "\<not> has (resources st) ''images/cover.jpg''"
  shows "\<not> has (resources (snd (addChapter e st k idx content title contentType insertTitle
                                   useGlobalCSS cssIdxs))) ''images/cover.jpg''"
proof (cases "k < length (volumes st)")
  case False
  with n show ?thesis by (simp add: addChapter_def)
next
  case True
  let ?p = "processImages e st (wrapContent (extractContent content) title contentType insertTitle)"
  have "\<not> has (resources (registerResources (snd (snd ?p)) (fst (snd ?p)))) ''images/cover.jpg''"
  proof
    assume "has (resources (registerResources (snd (snd ?p)) (fst (snd ?p)))) ''images/cover.jpg''"
    with n obtain u d where "(u, ''images/cover.jpg'', d) \<in> set (fst (snd ?p))"
      by (auto simp: has_registerResources_iff resources_processImages)
    from staged_paths [OF this] show False by simp
  qed
  with True show ?thesis
    by (simp add: resources_addChapter has_addResource)
qed

lemma cover_free_cssUrlLoop:
  "\<not> has (resources st) ''images/cover.jpg'' \<Longrightarrow>
   \<not> has (resources (snd (cssUrlLoop e st urls))) ''images/cover.jpg''"
  by (induction urls arbitrary: st)
     (simp_all add: Let_def split_def has_addResource split: option.splits)

lemma cover_free_addCSS:
  assumes a: "addCSS e st idx content filename mapname = Inr (i, st')"
    and f: "filename \<noteq> ''images/cover.jpg''"
    and n: "\<not> has (resources st) ''images/cover.jpg''"
  shows "\<not> has (resources st') ''images/cover.jpg''"
proof -
  have l: "\<not> has (resources (snd (cssUrlLoop e st urls))) ''images/cover.jpg''" for urls
    using n by (rule cover_free_cssUrlLoop)
  from a f show ?thesis
    by (auto simp: addCSS_def processCSSUrls_def Let_def split_def has_addResource l
        split: option.splits if_splits)
qed

lemma cover_free_exec:
  assumes n: "\<not> has (resources st) ''images/cover.jpg''"
    and c: "call \<noteq> Save" "\<forall>i content filename mapname.
              call = AddCSS i content filename mapname \<longrightarrow> filename \<noteq> ''images/cover.jpg''"
  shows "\<not> has (resources (exec e st call)) ''images/cover.jpg''"
proof (cases call)
  case (AddVolume title idx)
  with n show ?thesis by (simp add: cover_free_addVolume)
next
  case (AddChapter k idx content title contentType insertTitle useGlobalCSS cssIdxs)
  with n show ?thesis by (simp add: cover_free_addChapter)
next
  case (AddCSS idx content filename mapname)
  with c have f: "filename \<noteq> ''images/cover.jpg''" by simp
  show ?thesis
  proof (cases "addCSS e st idx content filename mapname")
    case (Inl err)
    with AddCSS n show ?thesis by simp
  next
    case (Inr r)
    obtain i st' where r: "r = (i, st')" by (cases r)
    from cover_free_addCSS [OF Inr [unfolded r] f n] AddCSS Inr r show ?thesis by simp
  qed
next
  case (SetInfo tag v)
  show ?thesis
  proof (cases "setInfo e st tag v")
    case (Inl err)
    with SetInfo n show ?thesis by simp
  next
    case (Inr st')
    with setInfo_frame [OF Inr] SetInfo n show ?thesis by simp
  qed
next
  case Save
  with c show ?thesis by simp
qed

lemma cover_free_foldl:
  "\<not> has (resources st) ''images/cover.jpg'' \<Longrightarrow>
   \<forall>call \<in> set calls. call \<noteq> Save \<and> (\<forall>i content filename mapname.
       call = AddCSS i content filename mapname \<longrightarrow> filename \<noteq> ''images/cover.jpg'') \<Longrightarrow>
   \<not> has (resources (foldl (exec e) st calls)) ''images/cover.jpg''"
proof (induction calls arbitrary: st)
  case Nil
  then show ?case by simp
next
  case (Cons call calls)
  from Cons.prems have "\<not> has (resources (exec e st call)) ''images/cover.jpg''"
    by (intro cover_free_exec) auto
  with Cons show ?case by simp
qed

lemma cover_free_run:
  "\<forall>call \<in> set calls. call \<noteq> Save \<and> (\<forall>i content filename mapname.
       call = AddCSS i content filename mapname \<longrightarrow> filename \<noteq> ''images/cover.jpg'') \<Longrightarrow>
   \<not> has (resources (run e (newEpub u) calls)) ''images/cover.jpg''"
  unfolding run_def by (rule cover_free_foldl) (simp_all add: newEpub_def has_def)

text \<open>
  C10, as amended. \<open>setInfo('cover', ...)\<close> keeps the bytes it is given, or the body of
  the response whatever its content type and status. When a cover is set, \<open>generateOpf\<close>
  offers these bytes to \<open>_addResource\<close> under \<open>images/cover.jpg\<close> and the cover page
  under \<open>cover.xhtml\<close>; after \<open>save\<close> the path \<open>images/cover.jpg\<close> is in the resource
  table. The package document, which \<open>save\<close> hands over as \<open>content.opf\<close>, names the
  cover in its metadata and declares in its manifest the item \<open>cover-image\<close> with the
  \<open>href\<close> \<open>images/cover.jpg\<close> and the media type \<open>image/jpeg\<close>, and then one item for
  each resource, the one of \<open>images/cover.jpg\<close> with the media type \<open>image/jpeg\<close> as
  well. The registration is first-write-wins like any other: when no resource has the
  path before the \<open>save\<close>, the bytes under the path, and in the archive, are the
  cover's; when one has, its bytes stay. The path is free in every document built from
  a new one by calls other than \<open>save\<close> that give no stylesheet the file name
  \<open>images/cover.jpg\<close>.
\<close>

theorem cover_registered_as_jpeg:
  \<open>setInfo e st ''cover'' (Bin b) = Inr (st\<lparr>info := (info st)\<lparr>cover := Some b\<rparr>\<rparr>)
   \<and> (fetch e url = Some response \<and> r_body response = Some b \<longrightarrow>
        setInfo e st ''cover'' (Str url) = Inr (st\<lparr>info := (info st)\<lparr>cover := Some b\<rparr>\<rparr>))
   \<and> (cover (info st) = Some c \<longrightarrow>
        snd (generateOpf e st)
          = (addResource (addResource st ''images/cover.jpg'' c) ''cover.xhtml'' (encode coverHtml))
              \<lparr>volumes := snd (spineVolumes (sortVolumes (volumes st)))\<rparr>
        \<and> has (resources (snd (save e st))) ''images/cover.jpg''
        \<and> \<lparr> i_id = ''cover-image'', i_href = ''images/cover.jpg'', i_mediaType = ''image/jpeg'',
              i_properties = Some ''cover-image'' \<rparr> \<in> set (opfManifest st)
        \<and> \<lparr> i_id = ''images-cover-jpg'', i_href = ''images/cover.jpg'', i_mediaType = ''image/jpeg'',
              i_properties = None \<rparr> \<in> set (opfManifest st)
        \<and> ''<meta name="cover" content="cover-image"/>'' \<in> set (opfMetadata e st)
        \<and> fst (generateOpf e st) =
             ''<?xml version="1.0" encoding="UTF-8"?>\<newline><package xmlns="http://www.idpf.org/2007/opf" unique-identifier="BookId" version="3.0">\<newline><metadata xmlns:dc="http://purl.org/dc/elements/1.1/">\<newline>''
             @ join ''\<newline>    '' (opfMetadata e st)
             @ ''\<newline></metadata>\<newline><manifest>\<newline><item id="nav" href="nav.xhtml" media-type="application/xhtml+xml" properties="nav"/>\<newline>    <item id="ncx" href="toc.ncx" media-type="application/x-dtbncx+xml"/>\<newline>    <item id="cover-image" href="images/cover.jpg" media-type="image/jpeg" properties="cover-image"/>\<newline>    <item id="cover" href="cover.xhtml" media-type="application/xhtml+xml"/>''
             @ concat (map (\<lambda>(path, content). ''\<newline>    <item id="'' @ sanitize path @ ''" href="'' @ path
                                                @ ''" media-type="'' @ mediaType path @ ''"/>'')
                           (resources (opfCover st)))
             @ ''\<newline></manifest>\<newline><spine toc="ncx">\<newline>''
             @ join ''\<newline>    '' (map renderItemref (opfSpine st))
             @ ''\<newline></spine>\<newline><guide>\<newline><reference href="cover.xhtml" type="cover" title="Cover"/>\<newline></guide>\<newline></package>''
        \<and> \<lparr> z_folder = ''OEBPS'', z_name = ''content.opf'', z_data = fst (generateOpf e st),
              z_compression = None \<rparr> \<in> set (entries (fst (save e st)))
        \<and> (\<not> has (resources st) ''images/cover.jpg'' \<longrightarrow>
              get (resources (snd (save e st))) ''images/cover.jpg'' = Some c
              \<and> \<lparr> z_folder = ''OEBPS'', z_name = ''images/cover.jpg'', z_data = c, z_compression = None \<rparr>
                  \<in> set (entries (fst (save e st))))
        \<and> (has (resources st) ''images/cover.jpg'' \<longrightarrow>
              get (resources (snd (save e st))) ''images/cover.jpg''
                = get (resources st) ''images/cover.jpg''))
   \<and> ((\<forall>call \<in> set calls. call \<noteq> Save \<and> (\<forall>i content filename mapname.
            call = AddCSS i content filename mapname \<longrightarrow> filename \<noteq> ''images/cover.jpg''))
        \<longrightarrow> \<not> has (resources (run e (newEpub u) calls)) ''images/cover.jpg'')\<close>
proof (intro conjI impI)
  show "setInfo e st ''cover'' (Bin b) = Inr (st\<lparr>info := (info st)\<lparr>cover := Some b\<rparr>\<rparr>)"
    by (simp add: setInfo_def)
  show "setInfo e st ''cover'' (Str url) = Inr (st\<lparr>info := (info st)\<lparr>cover := Some b\<rparr>\<rparr>)"
    if "fetch e url = Some response \<and> r_body response = Some b"
    using that by (simp add: setInfo_def)
  show "snd (generateOpf e st)
         = (addResource (addResource st ''images/cover.jpg'' c) ''cover.xhtml'' (encode coverHtml))
             \<lparr>volumes := snd (spineVolumes (sortVolumes (volumes st)))\<rparr>"
    if "cover (info st) = Some c"
    using that by (simp add: generateOpf_def opfCover_def)
  show "has (resources (snd (save e st))) ''images/cover.jpg''" if "cover (info st) = Some c"
    using that by (simp add: resources_save has_opfCover)
  show "\<lparr> i_id = ''cover-image'', i_href = ''images/cover.jpg'', i_mediaType = ''image/jpeg'',
             i_properties = Some ''cover-image'' \<rparr> \<in> set (opfManifest st)"
    if "cover (info st) = Some c"
    using that by (simp add: opfManifest_def)
  show "\<lparr> i_id = ''images-cover-jpg'', i_href = ''images/cover.jpg'', i_mediaType = ''image/jpeg'',
             i_properties = None \<rparr> \<in> set (opfManifest st)"
    if c: "cover (info st) = Some c"
  proof -
    from c have "''images/cover.jpg'' \<in> set (keys (resources (opfCover st)))"
      by (intro has_in_keys has_opfCover)
    then have "\<lparr> i_id = sanitize ''images/cover.jpg'', i_href = ''images/cover.jpg'',
          i_mediaType = mediaType ''images/cover.jpg'', i_properties = None \<rparr> \<in> set (opfManifest st)"
      by (force simp: opfManifest_def keys_def resourceItem_def)
    then show ?thesis
      by (simp add: sanitize_def mediaType_def endsWith_def)
  qed
  show \<open>''<meta name="cover" content="cover-image"/>'' \<in> set (opfMetadata e st)\<close>
    if "cover (info st) = Some c"
    using that by (rule metadata_cover)
  show \<open>fst (generateOpf e st) =
             ''<?xml version="1.0" encoding="UTF-8"?>\<newline><package xmlns="http://www.idpf.org/2007/opf" unique-identifier="BookId" version="3.0">\<newline><metadata xmlns:dc="http://purl.org/dc/elements/1.1/">\<newline>''
             @ join ''\<newline>    '' (opfMetadata e st)
             @ ''\<newline></metadata>\<newline><manifest>\<newline><item id="nav" href="nav.xhtml" media-type="application/xhtml+xml" properties="nav"/>\<newline>    <item id="ncx" href="toc.ncx" media-type="application/x-dtbncx+xml"/>\<newline>    <item id="cover-image" href="images/cover.jpg" media-type="image/jpeg" properties="cover-image"/>\<newline>    <item id="cover" href="cover.xhtml" media-type="application/xhtml+xml"/>''
             @ concat (map (\<lambda>(path, content). ''\<newline>    <item id="'' @ sanitize path @ ''" href="'' @ path
                                                @ ''" media-type="'' @ mediaType path @ ''"/>'')
                           (resources (opfCover st)))
             @ ''\<newline></manifest>\<newline><spine toc="ncx">\<newline>''
             @ join ''\<newline>    '' (map renderItemref (opfSpine st))
             @ ''\<newline></spine>\<newline><guide>\<newline><reference href="cover.xhtml" type="cover" title="Cover"/>\<newline></guide>\<newline></package>''\<close>
    if "cover (info st) = Some c"
    using that by (rule manifest_generateOpf)
  show "\<lparr> z_folder = ''OEBPS'', z_name = ''content.opf'', z_data = fst (generateOpf e st),
              z_compression = None \<rparr> \<in> set (entries (fst (save e st)))"
    by (rule opf_entry_save)
  show "get (resources (snd (save e st))) ''images/cover.jpg'' = Some c"
    if "cover (info st) = Some c" and "\<not> has (resources st) ''images/cover.jpg''"
    using that by (simp add: resources_save get_opfCover)
  show "\<lparr> z_folder = ''OEBPS'', z_name = ''images/cover.jpg'', z_data = c, z_compression = None \<rparr>
                 \<in> set (entries (fst (save e st)))"
    if c: "cover (info st) = Some c" and n: "\<not> has (resources st) ''images/cover.jpg''"
  proof -
    from c n have "get (resources (opfCover st)) ''images/cover.jpg'' = Some c"
      by (rule get_opfCover)
    then have "(''images/cover.jpg'', c) \<in> set (resources (opfCover st))"
      by (rule get_in_set)
    then show ?thesis
      by (force simp: entries_save)
  qed
  show "get (resources (snd (save e st))) ''images/cover.jpg'' = get (resources st) ''images/cover.jpg''"
    if "has (resources st) ''images/cover.jpg''"
    using that by (simp add: resources_save get_opfCover_kept)
  show "\<not> has (resources (run e (newEpub u) calls)) ''images/cover.jpg''"
    if "\<forall>call \<in> set calls. call \<noteq> Save \<and> (\<forall>i content filename mapname.
            call = AddCSS i content filename mapname \<longrightarrow> filename \<noteq> ''images/cover.jpg'')"
    using that by (rule cover_free_run)
qed

text \<open>
  A cover fetched as \<open>image/png\<close> on a new document; a document with a volume and a
  cover before its first \<open>save\<close>; and a document that has the path already.
\<close>

theorem cover_registered_as_jpeg_witness:
  "setInfo sampleEnv (newEpub ''u'') ''cover'' (Str ''http://h/a.png'')
     = Inr ((newEpub ''u'')\<lparr>info := (info (newEpub ''u''))\<lparr>cover := Some ''PNG''\<rparr>\<rparr>)
   \<and> get (resources (snd (save sampleEnv ((newEpub ''u'')\<lparr>info := (info (newEpub ''u''))\<lparr>cover := Some ''PNG''\<rparr>\<rparr>))))
         ''images/cover.jpg'' = Some ''PNG''
   \<and> \<lparr> i_id = ''cover-image'', i_href = ''images/cover.jpg'', i_mediaType = ''image/jpeg'',
         i_properties = Some ''cover-image'' \<rparr>
       \<in> set (opfManifest ((newEpub ''u'')\<lparr>info := (info (newEpub ''u''))\<lparr>cover := Some ''PNG''\<rparr>\<rparr>))
   \<and> \<not> has (resources (run sampleEnv (newEpub ''u'') [AddVolume ''V'' 1, SetInfo ''cover'' (Bin ''JPG'')]))
         ''images/cover.jpg''
   \<and> get (resources (snd (save sampleEnv
         ((newEpub ''u'')\<lparr>resources := [(''images/cover.jpg'', ''OLD'')],
                           info := (info (newEpub ''u''))\<lparr>cover := Some ''NEW''\<rparr>\<rparr>))))
         ''images/cover.jpg'' = Some ''OLD''"
proof -
  let ?st = "(newEpub ''u'')\<lparr>info := (info (newEpub ''u''))\<lparr>cover := Some ''PNG''\<rparr>\<rparr>"
  let ?st2 = "(newEpub ''u'')\<lparr>resources := [(''images/cover.jpg'', ''OLD'')],
                           info := (info (newEpub ''u''))\<lparr>cover := Some ''NEW''\<rparr>\<rparr>"
  let ?r = "\<lparr> r_ok = True, r_contentType = Some ''image/png'', r_body = Some ''PNG'' \<rparr>"
  let ?calls = "[AddVolume ''V'' 1, SetInfo ''cover'' (Bin ''JPG'')]"
  have f: "fetch sampleEnv ''http://h/a.png'' = Some ?r \<and> r_body ?r = Some ''PNG''"
    by (simp add: sampleEnv_def sampleFetch_def)
  have c: "cover (info ?st) = Some ''PNG''" by simp
  have n: "\<not> has (resources ?st) ''images/cover.jpg''" by (simp add: newEpub_def has_def)
  have c2: "cover (info ?st2) = Some ''NEW''" by simp
  have h2: "has (resources ?st2) ''images/cover.jpg''" by (simp add: has_def)
  have g2: "get (resources ?st2) ''images/cover.jpg'' = Some ''OLD''" by (simp add: get_def)
  have cs: "\<forall>call \<in> set ?calls. call \<noteq> Save \<and> (\<forall>i content filename mapname.
            call = AddCSS i content filename mapname \<longrightarrow> filename \<noteq> ''images/cover.jpg'')"
    by simp
  from cover_registered_as_jpeg [of sampleEnv "newEpub ''u''" "''PNG''" "''http://h/a.png''" ?r]
    f have 1: "setInfo sampleEnv (newEpub ''u'') ''cover'' (Str ''http://h/a.png'') = Inr ?st"
    by blast
  from cover_registered_as_jpeg [where e = sampleEnv and st = ?st and c = "''PNG''"] c n
  have 2: "get (resources (snd (save sampleEnv ?st))) ''images/cover.jpg'' = Some ''PNG''"
    and 3: "\<lparr> i_id = ''cover-image'', i_href = ''images/cover.jpg'', i_mediaType = ''image/jpeg'',
         i_properties = Some ''cover-image'' \<rparr> \<in> set (opfManifest ?st)"
    by blast+
  from cover_registered_as_jpeg [where e = sampleEnv and u = "''u''" and calls = ?calls] cs
  have 4: "\<not> has (resources (run sampleEnv (newEpub ''u'') ?calls)) ''images/cover.jpg''"
    by blast
  from cover_registered_as_jpeg [where e = sampleEnv and st = ?st2 and c = "''NEW''"] c2 h2
  have "get (resources (snd (save sampleEnv ?st2))) ''images/cover.jpg''
      = get (resources ?st2) ''images/cover.jpg''"
    by blast
  with g2 have 5: "get (resources (snd (save sampleEnv ?st2))) ''images/cover.jpg'' = Some ''OLD''"
    by simp
  from 1 2 3 4 5 show ?thesis by (intro conjI)
qed

text \<open>
  C10 as stated fails. When the cover is set again after a \<open>save\<close>, the next \<open>save\<close>
  keeps the bytes of the first cover under \<open>images/cover.jpg\<close>; and when a stylesheet
  has been given the file name \<open>images/cover.jpg\<close>, the path holds the stylesheet.
\<close>

theorem cover_registered_as_jpeg_counterexample:
  "cover (info (run sampleEnv (newEpub ''u'')
      [SetInfo ''cover'' (Bin ''OLD''), Save, SetInfo ''cover'' (Bin ''NEW'')])) = Some ''NEW''
   \<and> get (resources (snd (save sampleEnv (run sampleEnv (newEpub ''u'')
      [SetInfo ''cover'' (Bin ''OLD''), Save, SetInfo ''cover'' (Bin ''NEW'')])))) ''images/cover.jpg''
     = Some ''OLD''
   \<and> cover (info (run sampleEnv (newEpub ''u'')
      [AddCSS 0 ''a{}'' ''images/cover.jpg'' [], SetInfo ''cover'' (Bin ''NEW'')])) = Some ''NEW''
   \<and> get (resources (snd (save sampleEnv (run sampleEnv (newEpub ''u'')
      [AddCSS 0 ''a{}'' ''images/cover.jpg'' [], SetInfo ''cover'' (Bin ''NEW'')])))) ''images/cover.jpg''
     = Some ''a{}''"
  by (intro conjI; code_simp)

end
